theory Spec2Isabelle
  imports Main
begin

section \<open>Data model of main.py\<close>

text \<open>
  \<^verbatim>\<open>TipoAtendimento = Literal["N", "P"]\<close>: normal or priority service.
\<close>

datatype tipo_atendimento = N | P

text \<open>
  A \<^verbatim>\<open>datetime\<close> is only created (by \<^verbatim>\<open>agora_utc\<close>) and copied, never
  inspected; it is a number of microseconds since the epoch.
\<close>

type_synonym datetime = int

text \<open>
  \<^verbatim>\<open>class ClienteIn(BaseModel)\<close>: the validated request body of POST /fila. The
  fields carry the suffix \<open>_in\<close> because the record \<open>cliente\<close> below has fields of
  the same names.
\<close>

record cliente_in =
  nome_in :: string
  tipo_in :: tipo_atendimento

text \<open>\<^verbatim>\<open>class Cliente(BaseModel)\<close>, fields in the order of the source.\<close>

record cliente =
  posicao :: int
  nome :: string
  chegada :: datetime
  tipo :: tipo_atendimento
  atendido :: bool

text \<open>
  The handlers share \<^verbatim>\<open>Cliente\<close> objects by reference: \<^verbatim>\<open>fila\<close> is a list of
  references, \<^verbatim>\<open>ordenar_recalcular_posicoes\<close> and \<^verbatim>\<open>put_fila\<close> assign to
  attributes of objects that stay in the list, and \<^verbatim>\<open>post_fila\<close> returns the
  object it appended after the renumbering has changed it. So the state has an
  explicit object store: \<open>objetos\<close> maps an address to the object living there,
  \<open>prox\<close> is the next unused address (each \<^verbatim>\<open>Cliente(...)\<close> call takes one), and
  \<open>fila\<close> is the global list, holding addresses.
\<close>

type_synonym ref = nat

type_synonym heap = "ref \<rightharpoonup> cliente"

record estado =
  objetos :: heap
  prox :: ref
  fila :: "ref list"

text \<open>Reading an attribute goes through the reference.\<close>

definition deref :: "heap \<Rightarrow> ref \<Rightarrow> cliente" where
  "deref h c = the (h c)"

definition obj :: "estado \<Rightarrow> ref \<Rightarrow> cliente" where
  "obj s c = deref (objetos s) c"

text \<open>\<^verbatim>\<open>fila: List[Cliente] = []\<close> at module load.\<close>

definition estado_inicial :: estado where
  "estado_inicial = \<lparr>objetos = Map.empty, prox = 0, fila = []\<rparr>"

text \<open>
  The two errors the handlers can raise: \<^verbatim>\<open>HTTPException(status_code, detail)\<close>
  and the \<^verbatim>\<open>ValueError\<close> of \<^verbatim>\<open>list.remove\<close>.
\<close>

datatype erro = HTTPException int string | ValueError

section \<open>The store operations\<close>

subsection \<open>\<^verbatim>\<open>ordenar_recalcular_posicoes\<close>\<close>

text \<open>The sort key \<^verbatim>\<open>lambda c: (0 if c.tipo == "P" else 1)\<close>.\<close>

definition chave :: "heap \<Rightarrow> ref \<Rightarrow> nat" where
  "chave h c = (if tipo (deref h c) = P then 0 else 1)"

text \<open>The assignment \<^verbatim>\<open>c.posicao = i\<close> to the object at address \<open>c\<close>.\<close>

definition set_posicao :: "ref \<Rightarrow> int \<Rightarrow> heap \<Rightarrow> heap" where
  "set_posicao c i h = h(c \<mapsto> (deref h c)\<lparr>posicao := i\<rparr>)"

text \<open>
  The loop \<^verbatim>\<open>for i, c in enumerate(nao_atendidos, start=1): c.posicao = i\<close>, with
  the counter of \<^verbatim>\<open>enumerate\<close> as first argument.
\<close>

fun atribuir_posicoes :: "int \<Rightarrow> ref list \<Rightarrow> heap \<Rightarrow> heap" where
  "atribuir_posicoes i [] h = h"
| "atribuir_posicoes i (c # cs) h = atribuir_posicoes (i + 1) cs (set_posicao c i h)"

text \<open>
  \<^verbatim>\<open>list.sort(key=...)\<close> is a stable sort, and so is \<^const>\<open>sort_key\<close>; the result
  of a stable sort is determined by its input and its key.
\<close>

definition ordenar_recalcular_posicoes :: "estado \<Rightarrow> estado" where
  "ordenar_recalcular_posicoes s =
     (let nao_atendidos = filter (\<lambda>c. \<not> atendido (obj s c)) (fila s);
          atendidos = filter (\<lambda>c. atendido (obj s c)) (fila s);
          nao_atendidos = sort_key (chave (objetos s)) nao_atendidos;
          h = atribuir_posicoes 1 nao_atendidos (objetos s)
      in s\<lparr>objetos := h, fila := nao_atendidos @ atendidos\<rparr>)"

subsection \<open>\<^verbatim>\<open>encontrar_por_posicao\<close>\<close>

fun primeiro_com_posicao :: "heap \<Rightarrow> int \<Rightarrow> ref list \<Rightarrow> ref option" where
  "primeiro_com_posicao h p [] = None"
| "primeiro_com_posicao h p (c # cs) =
     (if posicao (deref h c) = p then Some c else primeiro_com_posicao h p cs)"

definition encontrar_por_posicao :: "int \<Rightarrow> estado \<Rightarrow> ref option" where
  "encontrar_por_posicao p s = primeiro_com_posicao (objetos s) p (fila s)"

subsection \<open>The handlers\<close>

text \<open>
  The comprehension \<^verbatim>\<open>[c for c in fila if not c.atendido]\<close> of \<^verbatim>\<open>get_fila\<close> and
  \<^verbatim>\<open>put_fila\<close>.
\<close>

definition nao_atendidos :: "estado \<Rightarrow> ref list" where
  "nao_atendidos s = filter (\<lambda>c. \<not> atendido (obj s c)) (fila s)"

definition get_fila :: "estado \<Rightarrow> ref list \<times> estado" where
  "get_fila s = (let s1 = ordenar_recalcular_posicoes s in (nao_atendidos s1, s1))"

text \<open>
  Python's \<^verbatim>\<open>str\<close> of an integer, used by the f-string of the 404 detail: decimal
  digits, most significant first, with a minus sign for a negative number.
  \<open>digito\<close> is only applied to numbers below 10.
\<close>

definition digito :: "nat \<Rightarrow> char" where
  "digito d = ''0123456789'' ! d"

function str_nat :: "nat \<Rightarrow> string" where
  "str_nat n = (if n < 10 then [digito n] else str_nat (n div 10) @ [digito (n mod 10)])"
  by pat_completeness auto
termination
  by (relation "measure (\<lambda>n. n)") auto

definition str_int :: "int \<Rightarrow> string" where
  "str_int i = (if i < 0 then CHR ''-'' # str_nat (nat (- i)) else str_nat (nat i))"

text \<open>
  The detail of the 404, an f-string that ends in \<^verbatim>\<open>{id}.\<close>: the Portuguese
  sentence "there is no client at position {id}.". A Python string is a sequence
  of code points; the three accented letters of the sentence are U+00E3 (a with
  tilde, in the first word), U+00E7 (c with cedilla) and U+00E3 again (in the last
  word), each one character here as well.
\<close>

definition detalhe :: "int \<Rightarrow> string" where
  "detalhe ident =
     ''N'' @ [CHR 0xE3] @ ''o existe cliente na posi''
       @ [CHR 0xE7, CHR 0xE3] @ ''o '' @ str_int ident @ ''.''"

definition nao_encontrado :: "int \<Rightarrow> erro" where
  "nao_encontrado ident = HTTPException 404 (detalhe ident)"

text \<open>
  \<^verbatim>\<open>if not cliente or cliente.atendido\<close>: a \<^verbatim>\<open>Cliente\<close> object is always truthy, so
  \<^verbatim>\<open>not cliente\<close> holds exactly for \<^verbatim>\<open>None\<close>.
\<close>

definition get_fila_id :: "int \<Rightarrow> estado \<Rightarrow> (erro + ref) \<times> estado" where
  "get_fila_id ident s =
     (let s1 = ordenar_recalcular_posicoes s in
      case encontrar_por_posicao ident s1 of
        None \<Rightarrow> (Inl (nao_encontrado ident), s1)
      | Some cliente \<Rightarrow>
          if atendido (obj s1 cliente) then (Inl (nao_encontrado ident), s1)
          else (Inr cliente, s1))"

text \<open>
  \<^verbatim>\<open>post_fila\<close>: the validated body \<open>novo\<close> and the value \<open>agora\<close> that
  \<^verbatim>\<open>agora_utc()\<close> returns during the call.
\<close>

definition novo_cliente :: "cliente_in \<Rightarrow> datetime \<Rightarrow> cliente" where
  "novo_cliente novo agora =
     \<lparr>posicao = 999999, nome = nome_in novo, chegada = agora,
      tipo = tipo_in novo, atendido = False\<rparr>"

text \<open>Creating an object: it takes the next unused address.\<close>

definition alocar :: "cliente \<Rightarrow> estado \<Rightarrow> ref \<times> estado" where
  "alocar v s = (prox s, s\<lparr>objetos := (objetos s)(prox s \<mapsto> v), prox := Suc (prox s)\<rparr>)"

definition post_fila :: "cliente_in \<Rightarrow> datetime \<Rightarrow> estado \<Rightarrow> ref \<times> estado" where
  "post_fila novo agora s =
     (let (cliente, s1) = alocar (novo_cliente novo agora) s;
          s2 = s1\<lparr>fila := fila s1 @ [cliente]\<rparr>;
          s3 = ordenar_recalcular_posicoes s2
      in (cliente, s3))"

text \<open>
  The two assignments \<^verbatim>\<open>primeiro.posicao = 0\<close> and \<^verbatim>\<open>primeiro.atendido = True\<close>
  of \<^verbatim>\<open>put_fila\<close>.
\<close>

definition marcar_atendido :: "ref \<Rightarrow> estado \<Rightarrow> estado" where
  "marcar_atendido primeiro s =
     s\<lparr>objetos := (objetos s)(primeiro \<mapsto> (obj s primeiro)\<lparr>posicao := 0, atendido := True\<rparr>)\<rparr>"

definition put_fila :: "estado \<Rightarrow> ref list \<times> estado" where
  "put_fila s =
     (let s1 = ordenar_recalcular_posicoes s;
          s2 = (case encontrar_por_posicao 1 s1 of
                  None \<Rightarrow> s1
                | Some primeiro \<Rightarrow> marcar_atendido primeiro s1);
          s3 = ordenar_recalcular_posicoes s2
      in (nao_atendidos s3, s3))"

text \<open>
  \<^verbatim>\<open>list.remove(x)\<close> deletes the first item that is \<^verbatim>\<open>x\<close> or compares equal to
  it, and raises \<^verbatim>\<open>ValueError\<close> (here \<open>None\<close>) when there is none. Two
  \<^verbatim>\<open>Cliente\<close> objects compare equal when all their fields do (the equality of a
  pydantic \<^verbatim>\<open>BaseModel\<close>).
\<close>

fun list_remove :: "heap \<Rightarrow> ref \<Rightarrow> ref list \<Rightarrow> ref list option" where
  "list_remove h x [] = None"
| "list_remove h x (c # cs) =
     (if c = x \<or> deref h c = deref h x then Some cs
      else map_option (\<lambda>r. c # r) (list_remove h x cs))"

definition delete_fila_id :: "int \<Rightarrow> estado \<Rightarrow> (erro + unit) \<times> estado" where
  "delete_fila_id ident s =
     (let s1 = ordenar_recalcular_posicoes s in
      case encontrar_por_posicao ident s1 of
        None \<Rightarrow> (Inl (nao_encontrado ident), s1)
      | Some cliente \<Rightarrow>
          if atendido (obj s1 cliente) then (Inl (nao_encontrado ident), s1)
          else (case list_remove (objetos s1) cliente (fila s1) of
                  None \<Rightarrow> (Inl ValueError, s1)
                | Some resto \<Rightarrow> (Inr (), ordenar_recalcular_posicoes (s1\<lparr>fila := resto\<rparr>))))"

subsection \<open>Requests and reachable states\<close>

text \<open>
  One constructor for each handler that touches the store, with the inputs of
  the call; \<open>atender\<close> is the store after the request has been handled.
\<close>

datatype requisicao =
    GetFila
  | GetFilaId int
  | PostFila cliente_in datetime
  | PutFila
  | DeleteFilaId int

fun atender :: "requisicao \<Rightarrow> estado \<Rightarrow> estado" where
  "atender GetFila s = snd (get_fila s)"
| "atender (GetFilaId ident) s = snd (get_fila_id ident s)"
| "atender (PostFila novo agora) s = snd (post_fila novo agora s)"
| "atender PutFila s = snd (put_fila s)"
| "atender (DeleteFilaId ident) s = snd (delete_fila_id ident s)"

inductive alcancavel :: "estado \<Rightarrow> bool" where
  inicial: "alcancavel estado_inicial"
| passo: "alcancavel s \<Longrightarrow> alcancavel (atender rq s)"

section \<open>Notions used in the statements\<close>

text \<open>
  The two halves that \<^verbatim>\<open>ordenar_recalcular_posicoes\<close> builds: the unserved
  references after the sort, and the served ones.
\<close>

definition ordenados :: "estado \<Rightarrow> ref list" where
  "ordenados s = sort_key (chave (objetos s)) (nao_atendidos s)"

definition ja_atendidos :: "estado \<Rightarrow> ref list" where
  "ja_atendidos s = filter (\<lambda>c. atendido (obj s c)) (fila s)"

text \<open>The positions that a listing of the queue shows, in the order of the list.\<close>

definition posicoes :: "estado \<Rightarrow> int list" where
  "posicoes s = map (\<lambda>c. posicao (obj s c)) (nao_atendidos s)"

text \<open>
  What holds of the store between requests: no object is in the list twice and
  every listed address has been allocated; a served object has position 0.
\<close>

definition bem_formado :: "estado \<Rightarrow> bool" where
  "bem_formado s = (distinct (fila s) \<and> list_all (\<lambda>c. c < prox s) (fila s))"

definition atendidos_zerados :: "estado \<Rightarrow> bool" where
  "atendidos_zerados s = list_all (\<lambda>c. atendido (obj s c) \<longrightarrow> posicao (obj s c) = 0) (fila s)"

definition invariante :: "estado \<Rightarrow> bool" where
  "invariante s = (bem_formado s \<and> atendidos_zerados s)"

text \<open>
  The store of \<^verbatim>\<open>post_fila\<close> just before its renumbering: the new object created
  and appended.
\<close>

definition anexado :: "cliente_in \<Rightarrow> datetime \<Rightarrow> estado \<Rightarrow> estado" where
  "anexado novo agora s =
     s\<lparr>objetos := (objetos s)(prox s \<mapsto> novo_cliente novo agora),
       prox := Suc (prox s), fila := fila s @ [prox s]\<rparr>"

text \<open>
  The positions of the unserved entries are 1, 2, ..., K in the order of the list,
  K being their number.
\<close>

definition posicoes_contiguas :: "estado \<Rightarrow> bool" where
  "posicoes_contiguas s = (posicoes s = [1..int (length (nao_atendidos s))])"

text \<open>Every unserved priority entry has a smaller position than every unserved normal one.\<close>

definition prioritarios_primeiro :: "estado \<Rightarrow> bool" where
  "prioritarios_primeiro s =
     (\<forall>a\<in>set (nao_atendidos s). \<forall>b\<in>set (nao_atendidos s).
        tipo (obj s a) = P \<and> tipo (obj s b) = N \<longrightarrow> posicao (obj s a) < posicao (obj s b))"

text \<open>
  A small run for concrete checks: Ana (normal) arrives, then Bob (priority),
  then Carla (normal).
\<close>

definition ana :: cliente_in where
  "ana = \<lparr>nome_in = ''Ana'', tipo_in = N\<rparr>"

definition bob :: cliente_in where
  "bob = \<lparr>nome_in = ''Bob'', tipo_in = P\<rparr>"

definition carla :: cliente_in where
  "carla = \<lparr>nome_in = ''Carla'', tipo_in = N\<rparr>"

definition estado_ana :: estado where
  "estado_ana = atender (PostFila ana 100) estado_inicial"

definition estado_ana_bob :: estado where
  "estado_ana_bob = atender (PostFila bob 200) estado_ana"

definition estado_bob_atendido :: estado where
  "estado_bob_atendido = atender PutFila estado_ana_bob"

definition estado_todos_atendidos :: estado where
  "estado_todos_atendidos = atender PutFila estado_bob_atendido"

text \<open>The store after a sequence of requests, handled one after the other.\<close>

fun atender_todas :: "requisicao list \<Rightarrow> estado \<Rightarrow> estado" where
  "atender_todas [] s = s"
| "atender_todas (rq # rqs) s = atender_todas rqs (atender rq s)"

text \<open>
  A sequence of POST requests, each with its body and its clock value; the
  result lists the objects the calls returned, in the order of the calls.
\<close>

fun enfileirar_todos :: "(cliente_in \<times> datetime) list \<Rightarrow> estado \<Rightarrow> ref list \<times> estado" where
  "enfileirar_todos [] s = ([], s)"
| "enfileirar_todos ((novo, agora) # resto) s =
     (let (c, s1) = post_fila novo agora s;
          (cs, s2) = enfileirar_todos resto s1
      in (c # cs, s2))"

text \<open>
  Among the unserved entries of one type, the order of the list is the order of
  creation (a later object has a larger address).
\<close>

definition ordem_chegada :: "estado \<Rightarrow> bool" where
  "ordem_chegada s =
     sorted_wrt (\<lambda>a b. tipo (obj s a) = tipo (obj s b) \<longrightarrow> a < b) (nao_atendidos s)"

section \<open>Properties of the renumbering loop\<close>

lemma deref_set_posicao:
  "deref (set_posicao c i h) r = (if r = c then (deref h c)\<lparr>posicao := i\<rparr> else deref h r)"
  by (simp add: deref_def set_posicao_def)

lemma set_posicao_fora: "r \<noteq> c \<Longrightarrow> set_posicao c i h r = h r"
  by (simp add: set_posicao_def)

lemma set_posicao_twice: "set_posicao c i (set_posicao c j h) = set_posicao c i h"
  by (simp add: set_posicao_def deref_def)

lemma set_posicao_swap:
  "c \<noteq> d \<Longrightarrow> set_posicao c i (set_posicao d j h) = set_posicao d j (set_posicao c i h)"
  by (auto simp: set_posicao_def deref_def)

lemma atribuir_campos [simp]:
  "atendido (deref (atribuir_posicoes i cs h) r) = atendido (deref h r)"
  "tipo (deref (atribuir_posicoes i cs h) r) = tipo (deref h r)"
  "nome (deref (atribuir_posicoes i cs h) r) = nome (deref h r)"
  "chegada (deref (atribuir_posicoes i cs h) r) = chegada (deref h r)"
  by (induction cs arbitrary: i h; simp add: deref_set_posicao)+

lemma atribuir_fora: "r \<notin> set cs \<Longrightarrow> atribuir_posicoes i cs h r = h r"
  by (induction cs arbitrary: i h) (simp_all add: set_posicao_fora)

lemma atribuir_map_posicao:
  "distinct cs \<Longrightarrow>
     map (\<lambda>c. posicao (deref (atribuir_posicoes i cs h) c)) cs = [i..i + int (length cs) - 1]"
proof (induction cs arbitrary: i h)
  case Nil
  then show ?case by simp
next
  case (Cons c cs)
  let ?h = "set_posicao c i h"
  have "deref (atribuir_posicoes (i + 1) cs ?h) c = deref ?h c"
    using Cons.prems by (simp add: deref_def atribuir_fora)
  then have hd: "posicao (deref (atribuir_posicoes (i + 1) cs ?h) c) = i"
    by (simp add: deref_set_posicao)
  have tl: "map (\<lambda>c. posicao (deref (atribuir_posicoes (i + 1) cs ?h) c)) cs
              = [i + 1..i + 1 + int (length cs) - 1]"
    using Cons.prems Cons.IH by simp
  have "[i..i + int (length (c # cs)) - 1] = i # [i + 1..i + 1 + int (length cs) - 1]"
    by (simp add: upto_rec1)
  with hd tl show ?case by simp
qed

lemma atribuir_atualiza_dentro:
  "c \<in> set cs \<Longrightarrow> atribuir_posicoes j cs (set_posicao c i h) = atribuir_posicoes j cs h"
proof (induction cs arbitrary: j h)
  case Nil
  then show ?case by simp
next
  case (Cons d cs)
  show ?case
  proof (cases "d = c")
    case True
    then show ?thesis by (simp add: set_posicao_twice)
  next
    case False
    with Cons.prems have "c \<in> set cs" by simp
    then show ?thesis
      using False Cons.IH [of "j + 1" "set_posicao d j h"]
      by (simp add: set_posicao_swap [of d c])
  qed
qed

lemma atribuir_atualiza_fora:
  "c \<notin> set cs \<Longrightarrow>
     atribuir_posicoes j cs (set_posicao c i h) = set_posicao c i (atribuir_posicoes j cs h)"
proof (induction cs arbitrary: j h)
  case Nil
  then show ?case by simp
next
  case (Cons d cs)
  then have ne: "d \<noteq> c" and nin: "c \<notin> set cs" by auto
  show ?case using Cons.IH [OF nin] ne by (simp add: set_posicao_swap [of d c])
qed

lemma atribuir_idem:
  "atribuir_posicoes i cs (atribuir_posicoes i cs h) = atribuir_posicoes i cs h"
proof (induction cs arbitrary: i h)
  case Nil
  then show ?case by simp
next
  case (Cons c cs)
  let ?A = "atribuir_posicoes (i + 1) cs"
  show ?case
  proof (cases "c \<in> set cs")
    case True
    then show ?thesis using Cons.IH by (simp add: atribuir_atualiza_dentro)
  next
    case False
    then show ?thesis using Cons.IH by (simp add: atribuir_atualiza_fora set_posicao_twice)
  qed
qed

section \<open>The renumbering as a whole\<close>

lemma insort_key_passa:
  "\<forall>y\<in>set as. f y < f x \<Longrightarrow> insort_key f x (as @ bs) = as @ insort_key f x bs"
  by (induction as) auto

lemma sort_key_chave:
  "sort_key (chave h) xs
     = filter (\<lambda>c. tipo (deref h c) = P) xs @ filter (\<lambda>c. tipo (deref h c) \<noteq> P) xs"
proof (induction xs)
  case Nil
  then show ?case by simp
next
  case (Cons x xs)
  let ?A = "filter (\<lambda>c. tipo (deref h c) = P) xs"
  let ?B = "filter (\<lambda>c. tipo (deref h c) \<noteq> P) xs"
  show ?case
  proof (cases "tipo (deref h x) = P")
    case True
    then have "insort_key (chave h) x (?A @ ?B) = x # ?A @ ?B"
      by (intro insort_is_Cons) (simp add: chave_def)
    with True Cons.IH show ?thesis by simp
  next
    case False
    have "insort_key (chave h) x (?A @ ?B) = ?A @ insort_key (chave h) x ?B"
      using False by (intro insort_key_passa) (simp add: chave_def)
    also have "insort_key (chave h) x ?B = x # ?B"
      using False by (intro insort_is_Cons) (simp add: chave_def)
    finally show ?thesis using False Cons.IH by simp
  qed
qed

lemma recalc_fila: "fila (ordenar_recalcular_posicoes s) = ordenados s @ ja_atendidos s"
  by (simp add: ordenar_recalcular_posicoes_def ordenados_def ja_atendidos_def nao_atendidos_def Let_def)

lemma recalc_objetos:
  "objetos (ordenar_recalcular_posicoes s) = atribuir_posicoes 1 (ordenados s) (objetos s)"
  by (simp add: ordenar_recalcular_posicoes_def ordenados_def nao_atendidos_def Let_def)

lemma recalc_prox: "prox (ordenar_recalcular_posicoes s) = prox s"
  by (simp add: ordenar_recalcular_posicoes_def Let_def)

lemma recalc_campos:
  "atendido (obj (ordenar_recalcular_posicoes s) r) = atendido (obj s r)"
  "tipo (obj (ordenar_recalcular_posicoes s) r) = tipo (obj s r)"
  "nome (obj (ordenar_recalcular_posicoes s) r) = nome (obj s r)"
  "chegada (obj (ordenar_recalcular_posicoes s) r) = chegada (obj s r)"
  by (simp_all add: obj_def recalc_objetos)

lemma set_ordenados: "set (ordenados s) = set (nao_atendidos s)"
  by (simp add: ordenados_def)

lemma ordenados_nao_atendido: "c \<in> set (ordenados s) \<Longrightarrow> \<not> atendido (obj s c)"
  by (simp add: set_ordenados nao_atendidos_def)

lemma ordenados_conv:
  "ordenados s = filter (\<lambda>c. tipo (obj s c) = P) (nao_atendidos s)
                   @ filter (\<lambda>c. tipo (obj s c) \<noteq> P) (nao_atendidos s)"
  by (simp add: ordenados_def sort_key_chave obj_def)

lemma nao_atendidos_recalc: "nao_atendidos (ordenar_recalcular_posicoes s) = ordenados s"
proof -
  have "filter (\<lambda>c. \<not> atendido (obj s c)) (ordenados s) = ordenados s"
    by (simp add: ordenados_nao_atendido)
  moreover have "filter (\<lambda>c. \<not> atendido (obj s c)) (ja_atendidos s) = []"
    by (simp add: ja_atendidos_def)
  ultimately show ?thesis
    by (simp add: nao_atendidos_def recalc_fila recalc_campos)
qed

lemma ja_atendidos_recalc: "ja_atendidos (ordenar_recalcular_posicoes s) = ja_atendidos s"
proof -
  have "filter (\<lambda>c. atendido (obj s c)) (ordenados s) = []"
    by (simp add: ordenados_nao_atendido)
  moreover have "filter (\<lambda>c. atendido (obj s c)) (ja_atendidos s) = ja_atendidos s"
    by (simp add: ja_atendidos_def)
  ultimately show ?thesis
    by (simp add: ja_atendidos_def [of "ordenar_recalcular_posicoes s"] recalc_fila recalc_campos)
qed

lemma ordenados_recalc: "ordenados (ordenar_recalcular_posicoes s) = ordenados s"
proof -
  have "chave (objetos (ordenar_recalcular_posicoes s)) = chave (objetos s)"
    by (rule ext) (simp add: chave_def recalc_objetos)
  moreover have "sort_key (chave (objetos s)) (ordenados s) = ordenados s"
    by (rule sort_key_id_if_sorted) (simp add: ordenados_def)
  ultimately show ?thesis
    by (simp add: ordenados_def [of "ordenar_recalcular_posicoes s"] nao_atendidos_recalc)
qed

lemma recalc_conv:
  "ordenar_recalcular_posicoes s
     = s\<lparr>objetos := atribuir_posicoes 1 (ordenados s) (objetos s),
         fila := ordenados s @ ja_atendidos s\<rparr>"
  by (simp add: ordenar_recalcular_posicoes_def ordenados_def ja_atendidos_def nao_atendidos_def Let_def)

lemma recalc_idempotente:
  "ordenar_recalcular_posicoes (ordenar_recalcular_posicoes s) = ordenar_recalcular_posicoes s"
proof -
  let ?t = "ordenar_recalcular_posicoes s"
  have "ordenar_recalcular_posicoes ?t
          = ?t\<lparr>objetos := atribuir_posicoes 1 (ordenados ?t) (objetos ?t),
               fila := ordenados ?t @ ja_atendidos ?t\<rparr>"
    by (rule recalc_conv)
  also have "\<dots> = ?t\<lparr>objetos := objetos ?t, fila := fila ?t\<rparr>"
    by (simp add: ordenados_recalc ja_atendidos_recalc recalc_fila recalc_objetos atribuir_idem)
  also have "\<dots> = ?t" by simp
  finally show ?thesis .
qed

lemma set_fila_recalc: "set (fila (ordenar_recalcular_posicoes s)) = set (fila s)"
  by (auto simp: recalc_fila set_ordenados nao_atendidos_def ja_atendidos_def)

lemma distinct_ordenados: "distinct (fila s) \<Longrightarrow> distinct (ordenados s)"
  by (simp add: ordenados_def nao_atendidos_def)

lemma distinct_fila_recalc:
  "distinct (fila s) \<Longrightarrow> distinct (fila (ordenar_recalcular_posicoes s))"
  by (auto simp: recalc_fila distinct_ordenados ja_atendidos_def dest: ordenados_nao_atendido)

lemma length_ordenados: "length (ordenados s) = length (nao_atendidos s)"
  by (simp add: ordenados_def)

lemma posicoes_recalc:
  assumes "distinct (fila s)"
  shows "posicoes (ordenar_recalcular_posicoes s) = [1..int (length (nao_atendidos s))]"
proof -
  have "posicoes (ordenar_recalcular_posicoes s)
          = map (\<lambda>c. posicao (deref (atribuir_posicoes 1 (ordenados s) (objetos s)) c)) (ordenados s)"
    by (simp add: posicoes_def nao_atendidos_recalc obj_def recalc_objetos)
  also have "\<dots> = [1..1 + int (length (ordenados s)) - 1]"
    using assms by (intro atribuir_map_posicao distinct_ordenados)
  finally show ?thesis by (simp add: length_ordenados)
qed

lemma obj_recalc_fora:
  "c \<notin> set (nao_atendidos s) \<Longrightarrow> obj (ordenar_recalcular_posicoes s) c = obj s c"
  by (simp add: obj_def deref_def recalc_objetos atribuir_fora set_ordenados)

lemma bem_formado_recalc: "bem_formado s \<Longrightarrow> bem_formado (ordenar_recalcular_posicoes s)"
  by (simp add: bem_formado_def distinct_fila_recalc list_all_iff set_fila_recalc recalc_prox)

lemma atendidos_zerados_recalc:
  assumes "atendidos_zerados s"
  shows "atendidos_zerados (ordenar_recalcular_posicoes s)"
proof -
  have "posicao (obj (ordenar_recalcular_posicoes s) c) = 0"
    if "c \<in> set (fila s)" "atendido (obj s c)" for c
  proof -
    from that have "c \<notin> set (nao_atendidos s)" by (simp add: nao_atendidos_def)
    then have "obj (ordenar_recalcular_posicoes s) c = obj s c" by (rule obj_recalc_fora)
    with assms that show ?thesis by (simp add: atendidos_zerados_def list_all_iff)
  qed
  then show ?thesis
    by (simp add: atendidos_zerados_def list_all_iff set_fila_recalc recalc_campos)
qed

lemma invariante_recalc: "invariante s \<Longrightarrow> invariante (ordenar_recalcular_posicoes s)"
  by (simp add: invariante_def bem_formado_recalc atendidos_zerados_recalc)

section \<open>Lookups by position\<close>

lemma primeiro_append:
  "primeiro_com_posicao h p (xs @ ys)
     = (case primeiro_com_posicao h p xs of
          None \<Rightarrow> primeiro_com_posicao h p ys
        | Some c \<Rightarrow> Some c)"
  by (induction xs) simp_all

lemma primeiro_Some:
  "primeiro_com_posicao h p xs = Some c \<Longrightarrow> c \<in> set xs \<and> posicao (deref h c) = p"
  by (induction xs) (auto split: if_splits)

lemma primeiro_None:
  "(primeiro_com_posicao h p xs = None) = (\<forall>c\<in>set xs. posicao (deref h c) \<noteq> p)"
  by (induction xs) auto

lemma nao_atendido_recalc_iff:
  "(c \<in> set (nao_atendidos (ordenar_recalcular_posicoes s)))
     = (c \<in> set (fila s) \<and> \<not> atendido (obj s c))"
  unfolding nao_atendidos_recalc set_ordenados by (simp add: nao_atendidos_def)

text \<open>The lookup after a renumbering, when some unserved object has the position.\<close>

lemma encontrar_recalc_presente:
  assumes "c \<in> set (nao_atendidos (ordenar_recalcular_posicoes s))"
    and "posicao (obj (ordenar_recalcular_posicoes s) c) = p"
  shows "\<exists>d. encontrar_por_posicao p (ordenar_recalcular_posicoes s) = Some d
            \<and> d \<in> set (nao_atendidos (ordenar_recalcular_posicoes s))
            \<and> posicao (obj (ordenar_recalcular_posicoes s) d) = p"
proof -
  let ?s1 = "ordenar_recalcular_posicoes s"
  from assms have "primeiro_com_posicao (objetos ?s1) p (ordenados s) \<noteq> None"
    by (auto simp: primeiro_None nao_atendidos_recalc obj_def)
  then obtain d where d: "primeiro_com_posicao (objetos ?s1) p (ordenados s) = Some d"
    by auto
  then have "encontrar_por_posicao p ?s1 = Some d"
    by (simp add: encontrar_por_posicao_def recalc_fila primeiro_append)
  moreover from d have "d \<in> set (ordenados s)" "posicao (obj ?s1 d) = p"
    by (auto simp: obj_def dest: primeiro_Some)
  ultimately show ?thesis by (simp add: nao_atendidos_recalc)
qed

text \<open>The lookup after a renumbering, when no unserved object has the position.\<close>

lemma encontrar_recalc_ausente:
  assumes "\<forall>c\<in>set (nao_atendidos (ordenar_recalcular_posicoes s)).
             posicao (obj (ordenar_recalcular_posicoes s) c) \<noteq> p"
  shows "encontrar_por_posicao p (ordenar_recalcular_posicoes s) = None
         \<or> (\<exists>d. encontrar_por_posicao p (ordenar_recalcular_posicoes s) = Some d
               \<and> atendido (obj (ordenar_recalcular_posicoes s) d))"
proof -
  let ?s1 = "ordenar_recalcular_posicoes s"
  from assms have none: "primeiro_com_posicao (objetos ?s1) p (ordenados s) = None"
    by (simp add: primeiro_None nao_atendidos_recalc obj_def)
  show ?thesis
  proof (cases "primeiro_com_posicao (objetos ?s1) p (ja_atendidos s)")
    case None
    with none show ?thesis
      by (simp add: encontrar_por_posicao_def recalc_fila primeiro_append)
  next
    case (Some d)
    then have "d \<in> set (ja_atendidos s)" by (auto dest: primeiro_Some)
    then have "atendido (obj ?s1 d)" by (simp add: ja_atendidos_def recalc_campos)
    with none Some show ?thesis
      by (simp add: encontrar_por_posicao_def recalc_fila primeiro_append)
  qed
qed

lemma get_fila_id_presente:
  assumes "c \<in> set (nao_atendidos (ordenar_recalcular_posicoes s))"
    and "posicao (obj (ordenar_recalcular_posicoes s) c) = p"
  shows "\<exists>d. get_fila_id p s = (Inr d, ordenar_recalcular_posicoes s)
            \<and> d \<in> set (nao_atendidos (ordenar_recalcular_posicoes s))
            \<and> posicao (obj (ordenar_recalcular_posicoes s) d) = p"
proof -
  from encontrar_recalc_presente [OF assms] obtain d
    where d: "encontrar_por_posicao p (ordenar_recalcular_posicoes s) = Some d"
      "d \<in> set (nao_atendidos (ordenar_recalcular_posicoes s))"
      "posicao (obj (ordenar_recalcular_posicoes s) d) = p"
    by blast
  from d(2) have "\<not> atendido (obj (ordenar_recalcular_posicoes s) d)"
    by (simp add: nao_atendidos_def)
  with d show ?thesis by (simp add: get_fila_id_def)
qed

lemma get_fila_id_ausente:
  assumes "\<forall>c\<in>set (nao_atendidos (ordenar_recalcular_posicoes s)).
             posicao (obj (ordenar_recalcular_posicoes s) c) \<noteq> p"
  shows "get_fila_id p s = (Inl (nao_encontrado p), ordenar_recalcular_posicoes s)"
  using encontrar_recalc_ausente [OF assms] by (auto simp: get_fila_id_def)

lemma delete_fila_id_ausente:
  assumes "\<forall>c\<in>set (nao_atendidos (ordenar_recalcular_posicoes s)).
             posicao (obj (ordenar_recalcular_posicoes s) c) \<noteq> p"
  shows "delete_fila_id p s = (Inl (nao_encontrado p), ordenar_recalcular_posicoes s)"
  using encontrar_recalc_ausente [OF assms] by (auto simp: delete_fila_id_def)

text \<open>\<^verbatim>\<open>fila.remove(cliente)\<close> on the object that the lookup has just found.\<close>

lemma list_remove_encontrado:
  "primeiro_com_posicao h p xs = Some c \<Longrightarrow> list_remove h c xs = Some (remove1 c xs)"
proof (induction xs)
  case Nil
  then show ?case by simp
next
  case (Cons d ds)
  show ?case
  proof (cases "posicao (deref h d) = p")
    case True
    with Cons.prems show ?thesis by simp
  next
    case False
    with Cons.prems have rest: "primeiro_com_posicao h p ds = Some c" by simp
    then have "posicao (deref h c) = p" by (auto dest: primeiro_Some)
    with False have "d \<noteq> c" "deref h d \<noteq> deref h c" by auto
    with Cons.IH [OF rest] show ?thesis by simp
  qed
qed

section \<open>The handlers keep the invariant\<close>

lemma post_fila_conv:
  "post_fila novo agora s = (prox s, ordenar_recalcular_posicoes (anexado novo agora s))"
  by (simp add: post_fila_def alocar_def anexado_def Let_def)

lemma obj_anexado:
  "obj (anexado novo agora s) c = (if c = prox s then novo_cliente novo agora else obj s c)"
  by (simp add: obj_def deref_def anexado_def)

lemma fila_anexado: "fila (anexado novo agora s) = fila s @ [prox s]"
  by (simp add: anexado_def)

lemma prox_anexado: "prox (anexado novo agora s) = Suc (prox s)"
  by (simp add: anexado_def)

lemma bem_formado_fresco: "bem_formado s \<Longrightarrow> prox s \<notin> set (fila s)"
  by (auto simp: bem_formado_def list_all_iff)

lemma invariante_anexado:
  assumes "invariante s"
  shows "invariante (anexado novo agora s)"
proof -
  from assms have bf: "bem_formado s" and az: "atendidos_zerados s"
    by (simp_all add: invariante_def)
  have fresco: "prox s \<notin> set (fila s)" using bf by (rule bem_formado_fresco)
  have "bem_formado (anexado novo agora s)"
    using bf fresco by (auto simp: bem_formado_def list_all_iff fila_anexado prox_anexado)
  moreover have "atendidos_zerados (anexado novo agora s)"
    using az fresco
    by (auto simp: atendidos_zerados_def list_all_iff fila_anexado obj_anexado novo_cliente_def)
  ultimately show ?thesis by (simp add: invariante_def)
qed

lemma obj_marcar:
  "obj (marcar_atendido c s) r
     = (if r = c then (obj s c)\<lparr>posicao := 0, atendido := True\<rparr> else obj s r)"
  by (simp add: obj_def deref_def marcar_atendido_def)

lemma fila_marcar: "fila (marcar_atendido c s) = fila s"
  by (simp add: marcar_atendido_def)

lemma prox_marcar: "prox (marcar_atendido c s) = prox s"
  by (simp add: marcar_atendido_def)

lemma invariante_marcar: "invariante s \<Longrightarrow> invariante (marcar_atendido c s)"
  by (auto simp: invariante_def bem_formado_def atendidos_zerados_def list_all_iff
      fila_marcar prox_marcar obj_marcar)

lemma invariante_remover:
  "invariante s \<Longrightarrow> invariante (s\<lparr>fila := remove1 c (fila s)\<rparr>)"
  by (auto simp: invariante_def bem_formado_def atendidos_zerados_def list_all_iff obj_def
      dest: notin_set_remove1)

lemma put_fila_conv:
  "put_fila s =
     (let s3 = ordenar_recalcular_posicoes
                 (case encontrar_por_posicao 1 (ordenar_recalcular_posicoes s) of
                    None \<Rightarrow> ordenar_recalcular_posicoes s
                  | Some primeiro \<Rightarrow> marcar_atendido primeiro (ordenar_recalcular_posicoes s))
      in (nao_atendidos s3, s3))"
  by (simp add: put_fila_def Let_def)

lemma invariante_put: "invariante s \<Longrightarrow> invariante (snd (put_fila s))"
  by (simp add: put_fila_conv Let_def invariante_recalc invariante_marcar split: option.split)

lemma invariante_get_fila: "invariante s \<Longrightarrow> invariante (snd (get_fila s))"
  by (simp add: get_fila_def Let_def invariante_recalc)

lemma snd_get_fila_id: "snd (get_fila_id p s) = ordenar_recalcular_posicoes s"
  by (simp add: get_fila_id_def Let_def split: option.split)

lemma invariante_post: "invariante s \<Longrightarrow> invariante (snd (post_fila novo agora s))"
  by (simp add: post_fila_conv invariante_recalc invariante_anexado)

text \<open>The three ways \<^verbatim>\<open>delete_fila_id\<close> can end.\<close>

lemma delete_fila_id_casos:
  "delete_fila_id p s = (Inl (nao_encontrado p), ordenar_recalcular_posicoes s)
   \<or> (\<exists>c. encontrar_por_posicao p (ordenar_recalcular_posicoes s) = Some c
          \<and> \<not> atendido (obj (ordenar_recalcular_posicoes s) c)
          \<and> delete_fila_id p s
              = (Inr (), ordenar_recalcular_posicoes
                   ((ordenar_recalcular_posicoes s)
                      \<lparr>fila := remove1 c (fila (ordenar_recalcular_posicoes s))\<rparr>)))"
proof (cases "encontrar_por_posicao p (ordenar_recalcular_posicoes s)")
  case None
  then show ?thesis by (simp add: delete_fila_id_def Let_def)
next
  case (Some c)
  show ?thesis
  proof (cases "atendido (obj (ordenar_recalcular_posicoes s) c)")
    case True
    with Some show ?thesis by (simp add: delete_fila_id_def Let_def)
  next
    case False
    from Some have "list_remove (objetos (ordenar_recalcular_posicoes s)) c
                      (fila (ordenar_recalcular_posicoes s))
                    = Some (remove1 c (fila (ordenar_recalcular_posicoes s)))"
      unfolding encontrar_por_posicao_def by (rule list_remove_encontrado)
    with Some False show ?thesis by (simp add: delete_fila_id_def Let_def)
  qed
qed

lemma invariante_delete: "invariante s \<Longrightarrow> invariante (snd (delete_fila_id p s))"
  using delete_fila_id_casos [of p s]
  by (auto simp: invariante_recalc invariante_remover)

lemma invariante_atender: "invariante s \<Longrightarrow> invariante (atender rq s)"
  by (cases rq)
    (simp_all add: invariante_get_fila snd_get_fila_id invariante_recalc invariante_post
      invariante_put invariante_delete)

lemma invariante_inicial: "invariante estado_inicial"
  by (simp add: invariante_def bem_formado_def atendidos_zerados_def estado_inicial_def)

lemma alcancavel_invariante: "alcancavel s \<Longrightarrow> invariante s"
  by (induction rule: alcancavel.induct) (simp_all add: invariante_inicial invariante_atender)

section \<open>Contiguous positions and priority order\<close>

lemma atender_e_recalc:
  assumes "invariante s"
  shows "\<exists>t. invariante t \<and> atender rq s = ordenar_recalcular_posicoes t"
proof (cases rq)
  case GetFila
  with assms show ?thesis by (auto simp: get_fila_def Let_def)
next
  case (GetFilaId p)
  with assms show ?thesis by (auto simp: snd_get_fila_id)
next
  case (PostFila novo agora)
  with assms show ?thesis by (auto simp: post_fila_conv intro: invariante_anexado)
next
  case PutFila
  show ?thesis
  proof (cases "encontrar_por_posicao 1 (ordenar_recalcular_posicoes s)")
    case None
    have "invariante (ordenar_recalcular_posicoes s)" using assms by (rule invariante_recalc)
    with None PutFila show ?thesis by (auto simp: put_fila_conv Let_def)
  next
    case (Some c)
    have "invariante (marcar_atendido c (ordenar_recalcular_posicoes s))"
      using assms by (intro invariante_marcar invariante_recalc)
    with Some PutFila show ?thesis by (auto simp: put_fila_conv Let_def)
  qed
next
  case (DeleteFilaId p)
  from delete_fila_id_casos [of p s] show ?thesis
  proof
    assume "delete_fila_id p s = (Inl (nao_encontrado p), ordenar_recalcular_posicoes s)"
    with assms DeleteFilaId show ?thesis by auto
  next
    assume "\<exists>c. encontrar_por_posicao p (ordenar_recalcular_posicoes s) = Some c
          \<and> \<not> atendido (obj (ordenar_recalcular_posicoes s) c)
          \<and> delete_fila_id p s
              = (Inr (), ordenar_recalcular_posicoes
                   ((ordenar_recalcular_posicoes s)
                      \<lparr>fila := remove1 c (fila (ordenar_recalcular_posicoes s))\<rparr>))"
    then obtain c where "delete_fila_id p s
              = (Inr (), ordenar_recalcular_posicoes
                   ((ordenar_recalcular_posicoes s)
                      \<lparr>fila := remove1 c (fila (ordenar_recalcular_posicoes s))\<rparr>))"
      by blast
    moreover have "invariante ((ordenar_recalcular_posicoes s)
                      \<lparr>fila := remove1 c (fila (ordenar_recalcular_posicoes s))\<rparr>)"
      using assms by (intro invariante_remover invariante_recalc)
    ultimately show ?thesis using DeleteFilaId by auto
  qed
qed

lemma invariante_distinct: "invariante s \<Longrightarrow> distinct (fila s)"
  by (simp add: invariante_def bem_formado_def)

lemma posicoes_contiguas_recalc:
  "distinct (fila t) \<Longrightarrow> posicoes_contiguas (ordenar_recalcular_posicoes t)"
  by (simp add: posicoes_contiguas_def posicoes_recalc nao_atendidos_recalc length_ordenados)

lemma sorted_wrt_posicoes:
  assumes "posicoes_contiguas s"
  shows "sorted_wrt (\<lambda>a b. posicao (obj s a) < posicao (obj s b)) (nao_atendidos s)"
proof -
  have "sorted_wrt (<) [1..int (length (nao_atendidos s))]"
    by (simp add: strict_sorted_iff)
  with assms have "sorted_wrt (<) (map (\<lambda>c. posicao (obj s c)) (nao_atendidos s))"
    by (simp add: posicoes_contiguas_def posicoes_def)
  then show ?thesis by (simp add: sorted_wrt_map)
qed

lemma prioritarios_primeiro_recalc:
  assumes "distinct (fila t)"
  shows "prioritarios_primeiro (ordenar_recalcular_posicoes t)"
proof -
  let ?s = "ordenar_recalcular_posicoes t"
  let ?A = "filter (\<lambda>c. tipo (obj t c) = P) (nao_atendidos t)"
  let ?B = "filter (\<lambda>c. tipo (obj t c) \<noteq> P) (nao_atendidos t)"
  have "sorted_wrt (\<lambda>a b. posicao (obj ?s a) < posicao (obj ?s b)) (nao_atendidos ?s)"
    using assms by (intro sorted_wrt_posicoes posicoes_contiguas_recalc)
  then have "sorted_wrt (\<lambda>a b. posicao (obj ?s a) < posicao (obj ?s b)) (?A @ ?B)"
    by (simp add: nao_atendidos_recalc ordenados_conv)
  then have cross: "\<forall>a\<in>set ?A. \<forall>b\<in>set ?B. posicao (obj ?s a) < posicao (obj ?s b)"
    by (simp add: sorted_wrt_append)
  have mem: "set (nao_atendidos ?s) = set (nao_atendidos t)"
    by (simp add: nao_atendidos_recalc set_ordenados)
  show ?thesis
    unfolding prioritarios_primeiro_def mem
    using cross by (auto simp: recalc_campos)
qed

lemma alcancavel_e_recalc:
  assumes "alcancavel s"
  shows "\<exists>t. invariante t \<and> s = ordenar_recalcular_posicoes t"
  using assms
proof (cases rule: alcancavel.cases)
  case inicial
  have "ordenar_recalcular_posicoes estado_inicial = estado_inicial"
    by (simp add: ordenar_recalcular_posicoes_def estado_inicial_def)
  with inicial invariante_inicial show ?thesis by metis
next
  case (passo s0 rq)
  then show ?thesis using atender_e_recalc [of s0 rq] alcancavel_invariante by auto
qed

section \<open>Concrete runs and reachable states\<close>

lemmas avaliar =
  post_fila_def alocar_def novo_cliente_def ordenar_recalcular_posicoes_def Let_def
  obj_def deref_def chave_def set_posicao_def nao_atendidos_def estado_inicial_def
  ana_def bob_def carla_def encontrar_por_posicao_def marcar_atendido_def
  put_fila_def get_fila_def get_fila_id_def delete_fila_id_def posicoes_def

lemma estado_ana_val:
  "estado_ana = \<lparr>objetos = [0 \<mapsto> \<lparr>posicao = 1, nome = ''Ana'', chegada = 100, tipo = N, atendido = False\<rparr>],
                 prox = 1, fila = [0]\<rparr>"
  by (simp add: estado_ana_def avaliar)

lemma estado_ana_bob_val:
  "estado_ana_bob =
     \<lparr>objetos = [Suc 0 \<mapsto> \<lparr>posicao = 1, nome = ''Bob'', chegada = 200, tipo = P, atendido = False\<rparr>,
                 0 \<mapsto> \<lparr>posicao = 2, nome = ''Ana'', chegada = 100, tipo = N, atendido = False\<rparr>],
      prox = 2, fila = [Suc 0, 0]\<rparr>"
  by (simp add: estado_ana_bob_def estado_ana_val avaliar)

lemma alcancavel_ana_bob: "alcancavel estado_ana_bob"
  unfolding estado_ana_bob_def estado_ana_def by (intro alcancavel.intros)

lemma posicao_positiva:
  assumes "posicoes_contiguas s" and "c \<in> set (nao_atendidos s)"
  shows "1 \<le> posicao (obj s c)"
proof -
  from assms(2) have "posicao (obj s c) \<in> set (posicoes s)"
    by (simp add: posicoes_def)
  with assms(1) show ?thesis by (simp add: posicoes_contiguas_def)
qed

lemma alcancavel_posicoes_contiguas: "alcancavel s \<Longrightarrow> posicoes_contiguas s"
  using alcancavel_e_recalc [of s] by (auto intro: posicoes_contiguas_recalc invariante_distinct)

lemma alcancavel_prioritarios_primeiro: "alcancavel s \<Longrightarrow> prioritarios_primeiro s"
  using alcancavel_e_recalc [of s] by (auto intro: prioritarios_primeiro_recalc invariante_distinct)

lemma alcancavel_recalc: "alcancavel s \<Longrightarrow> alcancavel (ordenar_recalcular_posicoes s)"
  using alcancavel.passo [of s GetFila] by (simp add: get_fila_def Let_def)

lemma estado_bob_atendido_val:
  "estado_bob_atendido =
     \<lparr>objetos = [Suc 0 \<mapsto> \<lparr>posicao = 0, nome = ''Bob'', chegada = 200, tipo = P, atendido = True\<rparr>,
                 0 \<mapsto> \<lparr>posicao = 1, nome = ''Ana'', chegada = 100, tipo = N, atendido = False\<rparr>],
      prox = 2, fila = [0, Suc 0]\<rparr>"
  by (simp add: estado_bob_atendido_def estado_ana_bob_val avaliar)

lemma alcancavel_bob_atendido: "alcancavel estado_bob_atendido"
  unfolding estado_bob_atendido_def using alcancavel_ana_bob by (rule alcancavel.passo)

lemma alcancavel_zerados: "alcancavel s \<Longrightarrow> atendidos_zerados s"
  by (drule alcancavel_invariante) (simp add: invariante_def)

lemma atendido_posicao_zero:
  "alcancavel s \<Longrightarrow> c \<in> set (fila s) \<Longrightarrow> atendido (obj s c) \<Longrightarrow> posicao (obj s c) = 0"
  by (drule alcancavel_zerados) (simp add: atendidos_zerados_def list_all_iff)

lemma nao_atendido_posicao_positiva:
  "alcancavel s \<Longrightarrow> c \<in> set (fila s) \<Longrightarrow> \<not> atendido (obj s c) \<Longrightarrow> 1 \<le> posicao (obj s c)"
  by (drule alcancavel_posicoes_contiguas) (simp add: posicao_positiva nao_atendidos_def)

lemma encontrar_Some:
  "encontrar_por_posicao p s = Some c \<Longrightarrow> c \<in> set (fila s) \<and> posicao (obj s c) = p"
  unfolding encontrar_por_posicao_def obj_def by (rule primeiro_Some)

lemma encontrado_positivo_nao_atendido:
  assumes "alcancavel s" and "1 \<le> p" and "encontrar_por_posicao p s = Some c"
  shows "\<not> atendido (obj s c)"
proof
  assume "atendido (obj s c)"
  moreover from assms(3) have "c \<in> set (fila s)" "posicao (obj s c) = p"
    by (simp_all add: encontrar_Some)
  ultimately have "p = 0" using assms(1) by (auto dest: atendido_posicao_zero)
  with assms(2) show False by simp
qed

lemma nao_positivo_ausente:
  assumes "alcancavel s" and "p \<le> 0"
  shows "\<forall>c\<in>set (nao_atendidos (ordenar_recalcular_posicoes s)).
           posicao (obj (ordenar_recalcular_posicoes s) c) \<noteq> p"
proof
  fix c
  assume "c \<in> set (nao_atendidos (ordenar_recalcular_posicoes s))"
  moreover have "posicoes_contiguas (ordenar_recalcular_posicoes s)"
    using assms(1) by (intro alcancavel_posicoes_contiguas alcancavel_recalc)
  ultimately have "1 \<le> posicao (obj (ordenar_recalcular_posicoes s) c)"
    by (intro posicao_positiva)
  with assms(2) show "posicao (obj (ordenar_recalcular_posicoes s) c) \<noteq> p" by simp
qed

section \<open>Serving the head of the queue\<close>

lemma posicoes_injetivas:
  assumes "posicoes_contiguas s"
    and "a \<in> set (nao_atendidos s)" and "b \<in> set (nao_atendidos s)"
    and "posicao (obj s a) = posicao (obj s b)"
  shows "a = b"
proof -
  from assms(1) have "distinct (map (\<lambda>c. posicao (obj s c)) (nao_atendidos s))"
    by (simp add: posicoes_contiguas_def posicoes_def)
  then have "inj_on (\<lambda>c. posicao (obj s c)) (set (nao_atendidos s))"
    by (simp add: distinct_map)
  with assms(2-4) show ?thesis by (auto dest: inj_onD)
qed

lemma posicao_da_cabeca:
  assumes "posicoes_contiguas s" and "nao_atendidos s = c # cs"
  shows "posicao (obj s c) = 1"
proof -
  from assms have "posicao (obj s c) # map (\<lambda>d. posicao (obj s d)) cs
                     = [1..int (length (c # cs))]"
    by (simp add: posicoes_contiguas_def posicoes_def)
  also have "\<dots> = 1 # [2..int (length (c # cs))]"
    by (simp add: upto_rec1)
  finally show ?thesis by simp
qed

lemma nao_atendidos_vazio_recalc:
  assumes "nao_atendidos s = []"
  shows "ordenar_recalcular_posicoes s = s"
proof -
  from assms have "\<forall>c\<in>set (fila s). atendido (obj s c)"
    by (simp add: nao_atendidos_def filter_empty_conv)
  then have "ja_atendidos s = fila s" by (simp add: ja_atendidos_def)
  moreover from assms have "ordenados s = []" by (simp add: ordenados_def)
  ultimately show ?thesis by (simp add: recalc_conv)
qed

lemma encontrar_um_sem_fila:
  assumes "atendidos_zerados s" and "nao_atendidos s = []"
  shows "encontrar_por_posicao 1 s = None"
proof -
  from assms(2) have "\<forall>c\<in>set (fila s). atendido (obj s c)"
    by (simp add: nao_atendidos_def filter_empty_conv)
  with assms(1) have "\<forall>c\<in>set (fila s). posicao (obj s c) = 0"
    by (simp add: atendidos_zerados_def list_all_iff)
  then show ?thesis
    by (simp add: encontrar_por_posicao_def primeiro_None obj_def)
qed

lemma put_fila_sem_fila:
  assumes "alcancavel s" and "nao_atendidos (ordenar_recalcular_posicoes s) = []"
  shows "put_fila s = ([], s)"
proof -
  from assms(2) have "length (nao_atendidos s) = 0"
    by (simp add: nao_atendidos_recalc flip: length_ordenados)
  then have vazio: "nao_atendidos s = []" by simp
  then have igual: "ordenar_recalcular_posicoes s = s" by (rule nao_atendidos_vazio_recalc)
  have "encontrar_por_posicao 1 s = None"
    using alcancavel_zerados [OF assms(1)] vazio by (rule encontrar_um_sem_fila)
  with igual vazio show ?thesis by (simp add: put_fila_conv Let_def)
qed

lemma encontrar_cabeca:
  assumes "distinct (fila s)" and "nao_atendidos (ordenar_recalcular_posicoes s) = c # cs"
  shows "encontrar_por_posicao 1 (ordenar_recalcular_posicoes s) = Some c"
proof -
  let ?s1 = "ordenar_recalcular_posicoes s"
  have "posicoes_contiguas ?s1" using assms(1) by (rule posicoes_contiguas_recalc)
  then have "posicao (obj ?s1 c) = 1" using assms(2) by (rule posicao_da_cabeca)
  moreover from assms(2) have "fila ?s1 = c # cs @ ja_atendidos s"
    by (simp add: recalc_fila nao_atendidos_recalc)
  ultimately show ?thesis by (simp add: encontrar_por_posicao_def obj_def)
qed

text \<open>The store of \<^verbatim>\<open>put_fila\<close> between the marking and the second renumbering.\<close>

lemma marcado_partes:
  assumes "distinct (fila s)" and "nao_atendidos (ordenar_recalcular_posicoes s) = c # cs"
  shows "nao_atendidos (marcar_atendido c (ordenar_recalcular_posicoes s)) = cs"
    and "ja_atendidos (marcar_atendido c (ordenar_recalcular_posicoes s)) = c # ja_atendidos s"
    and "ordenados (marcar_atendido c (ordenar_recalcular_posicoes s)) = cs"
proof -
  let ?s1 = "ordenar_recalcular_posicoes s"
  let ?s2 = "marcar_atendido c ?s1"
  from assms(2) have ord: "ordenados s = c # cs" by (simp add: nao_atendidos_recalc)
  then have fila1: "fila ?s1 = c # cs @ ja_atendidos s" by (simp add: recalc_fila)
  have "distinct (fila ?s1)" using assms(1) by (rule distinct_fila_recalc)
  with fila1 have fora: "c \<notin> set cs" "c \<notin> set (ja_atendidos s)" by auto
  have na: "\<not> atendido (obj ?s1 d)" if "d \<in> set cs" for d
    using that ord ordenados_nao_atendido [of d s] by (simp add: recalc_campos)
  have ja: "atendido (obj ?s1 d)" if "d \<in> set (ja_atendidos s)" for d
    using that by (simp add: ja_atendidos_def recalc_campos)
  have 1: "filter (\<lambda>d. \<not> atendido (obj ?s2 d)) cs = cs"
    using fora na by (auto simp: obj_marcar filter_id_conv)
  have 2: "filter (\<lambda>d. \<not> atendido (obj ?s2 d)) (ja_atendidos s) = []"
    using fora ja by (auto simp: obj_marcar filter_empty_conv)
  have 3: "filter (\<lambda>d. atendido (obj ?s2 d)) cs = []"
    using fora na by (auto simp: obj_marcar filter_empty_conv)
  have 4: "filter (\<lambda>d. atendido (obj ?s2 d)) (ja_atendidos s) = ja_atendidos s"
    using fora ja by (auto simp: obj_marcar filter_id_conv)
  show nao: "nao_atendidos ?s2 = cs"
    by (simp add: nao_atendidos_def fila_marcar fila1 1 2) (simp add: obj_marcar)
  show "ja_atendidos ?s2 = c # ja_atendidos s"
    by (simp add: ja_atendidos_def [of ?s2] fila_marcar fila1 3 4) (simp add: obj_marcar)
  have "sorted (map (chave (objetos s)) (c # cs))"
    using ord by (metis ordenados_def sorted_sort_key)
  then have "sorted (map (chave (objetos s)) cs)" by simp
  moreover have "chave (objetos ?s2) = chave (objetos s)"
  proof (rule ext)
    fix d
    have "tipo (obj ?s2 d) = tipo (obj s d)" by (simp add: obj_marcar recalc_campos)
    then show "chave (objetos ?s2) d = chave (objetos s) d" by (simp add: chave_def obj_def)
  qed
  ultimately show "ordenados ?s2 = cs"
    by (simp add: ordenados_def [of ?s2] nao sort_key_id_if_sorted)
qed

lemma put_fila_com_fila:
  assumes "distinct (fila s)" and "nao_atendidos (ordenar_recalcular_posicoes s) = c # cs"
  shows "put_fila s =
           (cs, ordenar_recalcular_posicoes (marcar_atendido c (ordenar_recalcular_posicoes s)))"
    and "fila (snd (put_fila s)) = cs @ c # ja_atendidos s"
    and "nao_atendidos (snd (put_fila s)) = cs"
    and "obj (snd (put_fila s)) c
           = (obj (ordenar_recalcular_posicoes s) c)\<lparr>posicao := 0, atendido := True\<rparr>"
proof -
  let ?s2 = "marcar_atendido c (ordenar_recalcular_posicoes s)"
  note partes = marcado_partes [OF assms]
  have conv: "put_fila s = (nao_atendidos (ordenar_recalcular_posicoes ?s2),
                            ordenar_recalcular_posicoes ?s2)"
    using encontrar_cabeca [OF assms] by (simp add: put_fila_conv Let_def)
  then show "put_fila s = (cs, ordenar_recalcular_posicoes ?s2)"
    by (simp add: nao_atendidos_recalc partes)
  from conv show "fila (snd (put_fila s)) = cs @ c # ja_atendidos s"
    by (simp add: recalc_fila partes)
  from conv show "nao_atendidos (snd (put_fila s)) = cs"
    by (simp add: nao_atendidos_recalc partes)
  have "c \<notin> set (nao_atendidos ?s2)"
    by (simp add: nao_atendidos_def obj_marcar)
  then have "obj (ordenar_recalcular_posicoes ?s2) c = obj ?s2 c"
    by (rule obj_recalc_fora)
  with conv show "obj (snd (put_fila s)) c
           = (obj (ordenar_recalcular_posicoes s) c)\<lparr>posicao := 0, atendido := True\<rparr>"
    by (simp add: obj_marcar)
qed

lemma put_fila_outros:
  assumes "distinct (fila s)" and "nao_atendidos (ordenar_recalcular_posicoes s) = c # cs"
    and "r \<noteq> c"
  shows "atendido (obj (snd (put_fila s)) r) = atendido (obj s r)"
  using put_fila_com_fila(1) [OF assms(1,2)] assms(3)
  by (simp add: recalc_campos obj_marcar)

lemma estado_todos_atendidos_val:
  "estado_todos_atendidos =
     \<lparr>objetos = [Suc 0 \<mapsto> \<lparr>posicao = 0, nome = ''Bob'', chegada = 200, tipo = P, atendido = True\<rparr>,
                 0 \<mapsto> \<lparr>posicao = 0, nome = ''Ana'', chegada = 100, tipo = N, atendido = True\<rparr>],
      prox = 2, fila = [0, Suc 0]\<rparr>"
  by (simp add: estado_todos_atendidos_def estado_bob_atendido_val avaliar)

lemma alcancavel_todos_atendidos: "alcancavel estado_todos_atendidos"
  unfolding estado_todos_atendidos_def using alcancavel_bob_atendido by (rule alcancavel.passo)

section \<open>Removing an entry\<close>

lemma delete_fila_id_presente:
  assumes "encontrar_por_posicao p (ordenar_recalcular_posicoes s) = Some c"
    and "\<not> atendido (obj (ordenar_recalcular_posicoes s) c)"
  shows "delete_fila_id p s
           = (Inr (), ordenar_recalcular_posicoes
                ((ordenar_recalcular_posicoes s)
                   \<lparr>fila := remove1 c (fila (ordenar_recalcular_posicoes s))\<rparr>))"
proof -
  from assms(1) have "list_remove (objetos (ordenar_recalcular_posicoes s)) c
                        (fila (ordenar_recalcular_posicoes s))
                      = Some (remove1 c (fila (ordenar_recalcular_posicoes s)))"
    unfolding encontrar_por_posicao_def by (rule list_remove_encontrado)
  with assms show ?thesis by (simp add: delete_fila_id_def Let_def)
qed

lemma encontrar_o_proprio:
  assumes "distinct (fila s)"
    and "c \<in> set (nao_atendidos (ordenar_recalcular_posicoes s))"
    and "posicao (obj (ordenar_recalcular_posicoes s) c) = p"
  shows "encontrar_por_posicao p (ordenar_recalcular_posicoes s) = Some c"
proof -
  from encontrar_recalc_presente [OF assms(2,3)] obtain d
    where d: "encontrar_por_posicao p (ordenar_recalcular_posicoes s) = Some d"
      "d \<in> set (nao_atendidos (ordenar_recalcular_posicoes s))"
      "posicao (obj (ordenar_recalcular_posicoes s) d) = p"
    by blast
  have "posicoes_contiguas (ordenar_recalcular_posicoes s)"
    using assms(1) by (rule posicoes_contiguas_recalc)
  then have "d = c" using d(2) assms(2)
    by (rule posicoes_injetivas) (simp add: d(3) assms(3))
  with d(1) show ?thesis by simp
qed

text \<open>The store of \<^verbatim>\<open>delete_fila_id\<close> between the removal and the second renumbering.\<close>

lemma removido_partes:
  assumes "c \<in> set (ordenados s)"
  shows "nao_atendidos ((ordenar_recalcular_posicoes s)
           \<lparr>fila := remove1 c (fila (ordenar_recalcular_posicoes s))\<rparr>) = remove1 c (ordenados s)"
    and "ja_atendidos ((ordenar_recalcular_posicoes s)
           \<lparr>fila := remove1 c (fila (ordenar_recalcular_posicoes s))\<rparr>) = ja_atendidos s"
    and "ordenados ((ordenar_recalcular_posicoes s)
           \<lparr>fila := remove1 c (fila (ordenar_recalcular_posicoes s))\<rparr>) = remove1 c (ordenados s)"
proof -
  let ?s1 = "ordenar_recalcular_posicoes s"
  let ?s2 = "?s1\<lparr>fila := remove1 c (fila ?s1)\<rparr>"
  have obj2: "obj ?s2 = obj ?s1" by (rule ext) (simp add: obj_def)
  have fila2: "fila ?s2 = remove1 c (ordenados s) @ ja_atendidos s"
    using assms by (simp add: recalc_fila remove1_append)
  have resto: "\<not> atendido (obj s d)" if "d \<in> set (remove1 c (ordenados s))" for d
    using that set_remove1_subset [of c "ordenados s"] by (auto dest: ordenados_nao_atendido)
  have 1: "filter (\<lambda>d. \<not> atendido (obj s d)) (remove1 c (ordenados s)) = remove1 c (ordenados s)"
    by (simp add: filter_id_conv resto)
  have 2: "filter (\<lambda>d. \<not> atendido (obj s d)) (ja_atendidos s) = []"
    by (simp add: ja_atendidos_def)
  have 3: "filter (\<lambda>d. atendido (obj s d)) (remove1 c (ordenados s)) = []"
    by (simp add: filter_empty_conv resto)
  have 4: "filter (\<lambda>d. atendido (obj s d)) (ja_atendidos s) = ja_atendidos s"
    by (simp add: ja_atendidos_def)
  show nao: "nao_atendidos ?s2 = remove1 c (ordenados s)"
    unfolding nao_atendidos_def obj2 fila2 by (simp add: recalc_campos 1 2)
  show "ja_atendidos ?s2 = ja_atendidos s"
    unfolding ja_atendidos_def [of ?s2] obj2 fila2 by (simp add: recalc_campos 3 4)
  have "sorted (map (chave (objetos s)) (ordenados s))"
    by (simp add: ordenados_def)
  then have "sorted (map (chave (objetos s)) (remove1 c (ordenados s)))"
    by (rule sorted_map_remove1)
  moreover have "chave (objetos ?s2) = chave (objetos s)"
    by (rule ext) (simp add: chave_def recalc_objetos)
  ultimately show "ordenados ?s2 = remove1 c (ordenados s)"
    by (simp add: ordenados_def [of ?s2] nao sort_key_id_if_sorted)
qed

lemma delete_fila_id_remove:
  assumes "distinct (fila s)"
    and "c \<in> set (nao_atendidos (ordenar_recalcular_posicoes s))"
    and "posicao (obj (ordenar_recalcular_posicoes s) c) = p"
  shows "fst (delete_fila_id p s) = Inr ()"
    and "fila (snd (delete_fila_id p s)) = remove1 c (fila (ordenar_recalcular_posicoes s))"
    and "nao_atendidos (snd (delete_fila_id p s))
           = remove1 c (nao_atendidos (ordenar_recalcular_posicoes s))"
    and "ja_atendidos (snd (delete_fila_id p s)) = ja_atendidos s"
proof -
  let ?s1 = "ordenar_recalcular_posicoes s"
  let ?s2 = "?s1\<lparr>fila := remove1 c (fila ?s1)\<rparr>"
  from assms(2) have na: "\<not> atendido (obj ?s1 c)" by (simp add: nao_atendidos_def)
  from assms(2) have mem: "c \<in> set (ordenados s)" by (simp add: nao_atendidos_recalc)
  note partes = removido_partes [OF mem]
  have conv: "delete_fila_id p s = (Inr (), ordenar_recalcular_posicoes ?s2)"
    using encontrar_o_proprio [OF assms] na by (rule delete_fila_id_presente)
  then show "fst (delete_fila_id p s) = Inr ()" by simp
  from conv mem show "fila (snd (delete_fila_id p s)) = remove1 c (fila ?s1)"
    by (simp add: recalc_fila [of ?s2] partes) (simp add: recalc_fila remove1_append)
  from conv show "nao_atendidos (snd (delete_fila_id p s)) = remove1 c (nao_atendidos ?s1)"
    by (simp add: nao_atendidos_recalc [of ?s2] partes) (simp add: nao_atendidos_recalc)
  from conv show "ja_atendidos (snd (delete_fila_id p s)) = ja_atendidos s"
    by (simp add: ja_atendidos_recalc [of ?s2] partes)
qed

lemma delete_fila_id_objetos:
  "nome (obj (snd (delete_fila_id p s)) r) = nome (obj s r)"
  "tipo (obj (snd (delete_fila_id p s)) r) = tipo (obj s r)"
  "chegada (obj (snd (delete_fila_id p s)) r) = chegada (obj s r)"
  "atendido (obj (snd (delete_fila_id p s)) r) = atendido (obj s r)"
  using delete_fila_id_casos [of p s]
  by (auto simp: obj_def recalc_objetos)

section \<open>Membership in the list across requests\<close>

lemma set_fila_put: "set (fila (snd (put_fila s))) = set (fila s)"
  by (simp add: put_fila_conv Let_def set_fila_recalc fila_marcar split: option.split)

lemma set_fila_post: "set (fila (snd (post_fila novo agora s))) = insert (prox s) (set (fila s))"
  by (simp add: post_fila_conv set_fila_recalc fila_anexado)

lemma set_fila_delete: "set (fila (snd (delete_fila_id p s))) \<subseteq> set (fila s)"
proof -
  let ?s1 = "ordenar_recalcular_posicoes s"
  have "set (remove1 c (fila ?s1)) \<subseteq> set (fila s)" for c
    using set_remove1_subset [of c "fila ?s1"] by (simp add: set_fila_recalc)
  then have "set (fila (ordenar_recalcular_posicoes (?s1\<lparr>fila := remove1 c (fila ?s1)\<rparr>)))
               \<subseteq> set (fila s)" for c
    by (simp add: set_fila_recalc [of "?s1\<lparr>fila := remove1 c (fila ?s1)\<rparr>"])
  moreover have "set (fila ?s1) \<subseteq> set (fila s)" by (simp add: set_fila_recalc)
  ultimately show ?thesis using delete_fila_id_casos [of p s] by (elim disjE exE conjE) simp_all
qed

lemma set_fila_atender: "set (fila (atender rq s)) \<subseteq> insert (prox s) (set (fila s))"
proof (cases rq)
  case GetFila
  then show ?thesis by (simp add: get_fila_def Let_def set_fila_recalc subset_insertI)
next
  case (GetFilaId p)
  then show ?thesis by (simp add: snd_get_fila_id set_fila_recalc subset_insertI)
next
  case (PostFila novo agora)
  then show ?thesis by (simp add: set_fila_post)
next
  case PutFila
  then show ?thesis by (simp add: set_fila_put subset_insertI)
next
  case (DeleteFilaId p)
  then show ?thesis using set_fila_delete [of p s] by (simp add: subset_insertI2)
qed

lemma prox_put: "prox (snd (put_fila s)) = prox s"
  by (simp add: put_fila_conv Let_def recalc_prox prox_marcar split: option.split)

lemma prox_post: "prox (snd (post_fila novo agora s)) = Suc (prox s)"
  by (simp add: post_fila_conv recalc_prox prox_anexado)

lemma prox_delete: "prox (snd (delete_fila_id p s)) = prox s"
  using delete_fila_id_casos [of p s] by (auto simp: recalc_prox)

lemma prox_atender: "prox s \<le> prox (atender rq s)"
  by (cases rq) (simp_all add: get_fila_def Let_def snd_get_fila_id recalc_prox prox_put
      prox_post prox_delete)

lemma fora_da_fila_para_sempre:
  "c < prox s \<Longrightarrow> c \<notin> set (fila s) \<Longrightarrow> c \<notin> set (fila (atender_todas rqs s))"
proof (induction rqs arbitrary: s)
  case Nil
  then show ?case by simp
next
  case (Cons rq rqs)
  from Cons.prems have "c < prox (atender rq s)"
    using prox_atender [of s rq] by simp
  moreover from Cons.prems have "c \<notin> set (fila (atender rq s))"
    using set_fila_atender [of rq s] by auto
  ultimately show ?case using Cons.IH by simp
qed

lemma get_fila_na_fila: "set (fst (get_fila s)) \<subseteq> set (fila s)"
  by (auto simp: get_fila_def Let_def nao_atendido_recalc_iff)

lemma get_fila_id_na_fila:
  assumes "fst (get_fila_id p s) = Inr d"
  shows "d \<in> set (fila s)"
proof (cases "encontrar_por_posicao p (ordenar_recalcular_posicoes s)")
  case None
  with assms show ?thesis by (simp add: get_fila_id_def Let_def)
next
  case (Some e)
  with assms have "e = d"
    by (simp add: get_fila_id_def Let_def split: if_splits)
  with Some have "d \<in> set (fila (ordenar_recalcular_posicoes s))"
    by (simp add: encontrar_Some)
  then show ?thesis by (simp add: set_fila_recalc)
qed

lemma bem_formado_alocado: "bem_formado s \<Longrightarrow> c \<in> set (fila s) \<Longrightarrow> c < prox s"
  by (simp add: bem_formado_def list_all_iff)

lemma alcancavel_bem_formado: "alcancavel s \<Longrightarrow> bem_formado s"
  by (drule alcancavel_invariante) (simp add: invariante_def)

section \<open>Adding an entry\<close>

lemma atribuir_posicao_indice:
  assumes "distinct cs" and "cs = as @ c # bs"
  shows "posicao (deref (atribuir_posicoes i cs h) c) = i + int (length as)"
proof -
  have len: "length as < length cs" using assms(2) by simp
  have "map (\<lambda>d. posicao (deref (atribuir_posicoes i cs h) d)) cs ! length as
          = [i..i + int (length cs) - 1] ! length as"
    using assms(1) by (simp add: atribuir_map_posicao)
  moreover have "map (\<lambda>d. posicao (deref (atribuir_posicoes i cs h) d)) cs ! length as
          = posicao (deref (atribuir_posicoes i cs h) c)"
    using len assms(2) by (simp add: nth_append)
  moreover have "[i..i + int (length cs) - 1] ! length as = i + int (length as)"
    using len by (intro nth_upto) simp
  ultimately show ?thesis by simp
qed

lemma posicao_recalc_indice:
  assumes "distinct (fila s)" and "ordenados s = as @ c # bs"
  shows "posicao (obj (ordenar_recalcular_posicoes s) c) = 1 + int (length as)"
  using atribuir_posicao_indice [OF distinct_ordenados [OF assms(1)] assms(2)]
  by (simp add: obj_def recalc_objetos)

lemma nao_atendidos_anexado:
  assumes "prox s \<notin> set (fila s)"
  shows "nao_atendidos (anexado novo agora s) = nao_atendidos s @ [prox s]"
proof -
  have "filter (\<lambda>c. \<not> atendido (obj (anexado novo agora s) c)) (fila s)
          = filter (\<lambda>c. \<not> atendido (obj s c)) (fila s)"
    using assms by (intro filter_cong) (auto simp: obj_anexado)
  then show ?thesis
    by (simp add: nao_atendidos_def fila_anexado) (simp add: obj_anexado novo_cliente_def)
qed

lemma nao_atendidos_na_fila: "set (nao_atendidos s) \<subseteq> set (fila s)"
  by (simp add: nao_atendidos_def)

lemma ordenados_anexado:
  assumes "prox s \<notin> set (fila s)"
  shows "ordenados (anexado novo agora s)
           = (if tipo_in novo = P
              then filter (\<lambda>c. tipo (obj s c) = P) (nao_atendidos s) @ prox s
                     # filter (\<lambda>c. tipo (obj s c) \<noteq> P) (nao_atendidos s)
              else (filter (\<lambda>c. tipo (obj s c) = P) (nao_atendidos s)
                     @ filter (\<lambda>c. tipo (obj s c) \<noteq> P) (nao_atendidos s)) @ prox s # [])"
proof -
  let ?t = "anexado novo agora s"
  have fora: "prox s \<notin> set (nao_atendidos s)"
    using assms nao_atendidos_na_fila [of s] by auto
  have 1: "filter (\<lambda>c. tipo (obj ?t c) = P) (nao_atendidos s)
             = filter (\<lambda>c. tipo (obj s c) = P) (nao_atendidos s)"
    using fora by (intro filter_cong) (auto simp: obj_anexado)
  have 2: "filter (\<lambda>c. tipo (obj ?t c) \<noteq> P) (nao_atendidos s)
             = filter (\<lambda>c. tipo (obj s c) \<noteq> P) (nao_atendidos s)"
    using fora by (intro filter_cong) (auto simp: obj_anexado)
  have 3: "tipo (obj ?t (prox s)) = tipo_in novo"
    by (simp add: obj_anexado novo_cliente_def)
  show ?thesis
    by (simp add: ordenados_conv [of ?t] nao_atendidos_anexado [OF assms] 1 2 3)
qed

lemma posicao_do_novo:
  assumes "bem_formado s"
  shows "posicao (obj (snd (post_fila novo agora s)) (prox s))
           = (if tipo_in novo = P
              then 1 + int (length (filter (\<lambda>c. tipo (obj s c) = P) (nao_atendidos s)))
              else 1 + int (length (nao_atendidos s)))"
proof -
  let ?t = "anexado novo agora s"
  have fresco: "prox s \<notin> set (fila s)" using assms by (rule bem_formado_fresco)
  have bf: "bem_formado ?t"
    using assms fresco by (auto simp: bem_formado_def list_all_iff fila_anexado prox_anexado)
  then have d: "distinct (fila ?t)" by (simp add: bem_formado_def)
  show ?thesis
  proof (cases "tipo_in novo = P")
    case True
    then have "ordenados ?t = filter (\<lambda>c. tipo (obj s c) = P) (nao_atendidos s) @ prox s
                     # filter (\<lambda>c. tipo (obj s c) \<noteq> P) (nao_atendidos s)"
      by (simp add: ordenados_anexado [OF fresco])
    from posicao_recalc_indice [OF d this] True show ?thesis
      by (simp add: post_fila_conv)
  next
    case False
    then have "ordenados ?t = (filter (\<lambda>c. tipo (obj s c) = P) (nao_atendidos s)
                     @ filter (\<lambda>c. tipo (obj s c) \<noteq> P) (nao_atendidos s)) @ prox s # []"
      by (simp add: ordenados_anexado [OF fresco])
    from posicao_recalc_indice [OF d this] False show ?thesis
      by (simp add: post_fila_conv sum_length_filter_compl)
  qed
qed

lemma campos_do_novo:
  "nome (obj (snd (post_fila novo agora s)) (prox s)) = nome_in novo"
  "chegada (obj (snd (post_fila novo agora s)) (prox s)) = agora"
  "tipo (obj (snd (post_fila novo agora s)) (prox s)) = tipo_in novo"
  "atendido (obj (snd (post_fila novo agora s)) (prox s)) = False"
  by (simp_all add: post_fila_conv recalc_campos obj_anexado novo_cliente_def)

lemma novo_nao_atendido:
  "prox s \<in> set (nao_atendidos (snd (post_fila novo agora s)))"
  by (simp add: post_fila_conv nao_atendido_recalc_iff fila_anexado obj_anexado novo_cliente_def)

lemma alcancavel_ana: "alcancavel estado_ana"
  unfolding estado_ana_def by (intro alcancavel.intros)

section \<open>Fields that never change\<close>

lemma put_fila_campos:
  "nome (obj (snd (put_fila s)) r) = nome (obj s r)"
  "tipo (obj (snd (put_fila s)) r) = tipo (obj s r)"
  "chegada (obj (snd (put_fila s)) r) = chegada (obj s r)"
  by (simp_all add: put_fila_conv Let_def recalc_campos obj_marcar split: option.split)

lemma post_fila_campos:
  assumes "r \<noteq> prox s"
  shows "nome (obj (snd (post_fila novo agora s)) r) = nome (obj s r)"
    and "tipo (obj (snd (post_fila novo agora s)) r) = tipo (obj s r)"
    and "chegada (obj (snd (post_fila novo agora s)) r) = chegada (obj s r)"
    and "atendido (obj (snd (post_fila novo agora s)) r) = atendido (obj s r)"
  using assms by (simp_all add: post_fila_conv recalc_campos obj_anexado)

lemma atender_campos:
  assumes "r < prox s"
  shows "nome (obj (atender rq s) r) = nome (obj s r)"
    and "tipo (obj (atender rq s) r) = tipo (obj s r)"
    and "chegada (obj (atender rq s) r) = chegada (obj s r)"
proof -
  from assms have ne: "r \<noteq> prox s" by simp
  show "nome (obj (atender rq s) r) = nome (obj s r)"
    by (cases rq)
      (simp_all add: get_fila_def Let_def snd_get_fila_id recalc_campos put_fila_campos
        post_fila_campos [OF ne] delete_fila_id_objetos)
  show "tipo (obj (atender rq s) r) = tipo (obj s r)"
    by (cases rq)
      (simp_all add: get_fila_def Let_def snd_get_fila_id recalc_campos put_fila_campos
        post_fila_campos [OF ne] delete_fila_id_objetos)
  show "chegada (obj (atender rq s) r) = chegada (obj s r)"
    by (cases rq)
      (simp_all add: get_fila_def Let_def snd_get_fila_id recalc_campos put_fila_campos
        post_fila_campos [OF ne] delete_fila_id_objetos)
qed

lemma atender_todas_campos:
  "r < prox s \<Longrightarrow>
     nome (obj (atender_todas rqs s) r) = nome (obj s r)
     \<and> tipo (obj (atender_todas rqs s) r) = tipo (obj s r)
     \<and> chegada (obj (atender_todas rqs s) r) = chegada (obj s r)"
proof (induction rqs arbitrary: s)
  case Nil
  then show ?case by simp
next
  case (Cons rq rqs)
  from Cons.prems have "r < prox (atender rq s)"
    using prox_atender [of s rq] by simp
  from Cons.IH [OF this] Cons.prems show ?case
    by (simp add: atender_campos)
qed

lemma recalc_so_posicao:
  "obj (ordenar_recalcular_posicoes s) r
     = (obj s r)\<lparr>posicao := posicao (obj (ordenar_recalcular_posicoes s) r)\<rparr>"
  by (rule cliente.equality) (simp_all add: recalc_campos)

lemma put_fila_so_posicao_e_atendido:
  "obj (snd (put_fila s)) r
     = (obj s r)\<lparr>posicao := posicao (obj (snd (put_fila s)) r),
                 atendido := atendido (obj (snd (put_fila s)) r)\<rparr>"
  by (rule cliente.equality) (simp_all add: put_fila_campos)

section \<open>Arrival order within a type\<close>

lemma sorted_wrt_um_dos_dois:
  "sorted_wrt R xs \<Longrightarrow> a \<in> set xs \<Longrightarrow> b \<in> set xs \<Longrightarrow> a \<noteq> b \<Longrightarrow> R a b \<or> R b a"
  by (induction xs) auto

lemma sorted_wrt_ambos:
  "sorted_wrt Q xs \<Longrightarrow> sorted_wrt R xs \<Longrightarrow> sorted_wrt (\<lambda>a b. Q a b \<and> R a b) xs"
  by (induction xs) auto

lemma ordem_chegada_recalc:
  assumes "ordem_chegada t"
  shows "ordem_chegada (ordenar_recalcular_posicoes t)"
proof -
  let ?R = "\<lambda>a b. tipo (obj t a) = tipo (obj t b) \<longrightarrow> a < b"
  let ?A = "filter (\<lambda>c. tipo (obj t c) = P) (nao_atendidos t)"
  let ?B = "filter (\<lambda>c. tipo (obj t c) \<noteq> P) (nao_atendidos t)"
  from assms have U: "sorted_wrt ?R (nao_atendidos t)" by (simp add: ordem_chegada_def)
  have "sorted_wrt ?R ?A" "sorted_wrt ?R ?B"
    using U by (simp_all add: sorted_wrt_filter)
  then have "sorted_wrt ?R (?A @ ?B)"
    by (auto simp: sorted_wrt_append)
  then show ?thesis
    by (simp add: ordem_chegada_def nao_atendidos_recalc ordenados_conv recalc_campos)
qed

lemma ordem_chegada_anexado:
  assumes "bem_formado s" and "ordem_chegada s"
  shows "ordem_chegada (anexado novo agora s)"
proof -
  let ?t = "anexado novo agora s"
  let ?R = "\<lambda>a b. tipo (obj s a) = tipo (obj s b) \<longrightarrow> a < b"
  let ?R' = "\<lambda>a b. tipo (obj ?t a) = tipo (obj ?t b) \<longrightarrow> a < b"
  have fresco: "prox s \<notin> set (fila s)" using assms(1) by (rule bem_formado_fresco)
  have menor: "a < prox s" if "a \<in> set (nao_atendidos s)" for a
    using that nao_atendidos_na_fila [of s] assms(1) by (auto intro: bem_formado_alocado)
  from assms(2) have "sorted_wrt ?R (nao_atendidos s)" by (simp add: ordem_chegada_def)
  then have "sorted_wrt ?R' (nao_atendidos s)"
  proof (rule sorted_wrt_mono_rel [rotated])
    fix a b
    assume "a \<in> set (nao_atendidos s)" "b \<in> set (nao_atendidos s)" "?R a b"
    then show "?R' a b" using menor [of a] menor [of b] by (simp add: obj_anexado)
  qed
  then show ?thesis
    using menor by (simp add: ordem_chegada_def nao_atendidos_anexado [OF fresco] sorted_wrt_append)
qed

lemma nao_atendidos_marcar:
  "nao_atendidos (marcar_atendido c s) = filter (\<lambda>d. d \<noteq> c) (nao_atendidos s)"
  by (auto simp: nao_atendidos_def fila_marcar obj_marcar intro: filter_cong)

lemma ordem_chegada_marcar:
  assumes "ordem_chegada s"
  shows "ordem_chegada (marcar_atendido c s)"
proof -
  have "tipo (obj (marcar_atendido c s) d) = tipo (obj s d)" for d
    by (simp add: obj_marcar)
  with assms show ?thesis
    by (simp add: ordem_chegada_def nao_atendidos_marcar sorted_wrt_filter)
qed

lemma ordem_chegada_remover:
  assumes "distinct (fila s)" and "ordem_chegada s"
  shows "ordem_chegada (s\<lparr>fila := remove1 c (fila s)\<rparr>)"
proof -
  have "nao_atendidos (s\<lparr>fila := remove1 c (fila s)\<rparr>)
          = filter (\<lambda>d. \<not> atendido (obj s d)) (filter (\<lambda>d. d \<noteq> c) (fila s))"
    using assms(1)
    by (simp add: nao_atendidos_def obj_def distinct_remove1_removeAll removeAll_filter_not_eq)
      (metis (mono_tags, lifting) filter_cong)
  also have "\<dots> = filter (\<lambda>d. d \<noteq> c) (nao_atendidos s)"
    by (simp add: nao_atendidos_def conj_commute)
  finally have "nao_atendidos (s\<lparr>fila := remove1 c (fila s)\<rparr>)
                  = filter (\<lambda>d. d \<noteq> c) (nao_atendidos s)" .
  moreover have "obj (s\<lparr>fila := remove1 c (fila s)\<rparr>) = obj s"
    by (rule ext) (simp add: obj_def)
  ultimately show ?thesis
    using assms(2) by (simp add: ordem_chegada_def sorted_wrt_filter)
qed

lemma ordem_chegada_atender:
  assumes "invariante s" and "ordem_chegada s"
  shows "ordem_chegada (atender rq s)"
proof (cases rq)
  case GetFila
  with assms show ?thesis by (simp add: get_fila_def Let_def ordem_chegada_recalc)
next
  case (GetFilaId p)
  with assms show ?thesis by (simp add: snd_get_fila_id ordem_chegada_recalc)
next
  case (PostFila novo agora)
  from assms have "ordem_chegada (anexado novo agora s)"
    by (intro ordem_chegada_anexado) (simp_all add: invariante_def)
  with PostFila show ?thesis by (simp add: post_fila_conv ordem_chegada_recalc)
next
  case PutFila
  have "ordem_chegada (ordenar_recalcular_posicoes s)"
    using assms(2) by (rule ordem_chegada_recalc)
  with PutFila show ?thesis
    by (simp add: put_fila_conv Let_def ordem_chegada_recalc ordem_chegada_marcar
        split: option.split)
next
  case (DeleteFilaId p)
  let ?s1 = "ordenar_recalcular_posicoes s"
  have o1: "ordem_chegada ?s1" using assms(2) by (rule ordem_chegada_recalc)
  have d1: "distinct (fila ?s1)"
    using assms(1) by (intro distinct_fila_recalc invariante_distinct)
  have "ordem_chegada (ordenar_recalcular_posicoes (?s1\<lparr>fila := remove1 c (fila ?s1)\<rparr>))" for c
    by (rule ordem_chegada_recalc [OF ordem_chegada_remover [OF d1 o1]])
  with o1 DeleteFilaId show ?thesis
    using delete_fila_id_casos [of p s] by (elim disjE exE conjE) simp_all
qed

lemma alcancavel_ordem_chegada: "alcancavel s \<Longrightarrow> ordem_chegada s"
proof (induction rule: alcancavel.induct)
  case inicial
  show ?case by (simp add: ordem_chegada_def nao_atendidos_def estado_inicial_def)
next
  case (passo s rq)
  then show ?case by (simp add: ordem_chegada_atender alcancavel_invariante)
qed

text \<open>Of two unserved entries of one type, the one created first has the smaller position.\<close>

lemma posicao_por_chegada:
  assumes "alcancavel s"
    and "a \<in> set (nao_atendidos s)" and "b \<in> set (nao_atendidos s)"
    and "tipo (obj s a) = tipo (obj s b)" and "a < b"
  shows "posicao (obj s a) < posicao (obj s b)"
proof -
  let ?R = "\<lambda>x y. posicao (obj s x) < posicao (obj s y)
                  \<and> (tipo (obj s x) = tipo (obj s y) \<longrightarrow> x < y)"
  have "sorted_wrt (\<lambda>x y. posicao (obj s x) < posicao (obj s y)) (nao_atendidos s)"
    using assms(1) by (intro sorted_wrt_posicoes alcancavel_posicoes_contiguas)
  moreover have "sorted_wrt (\<lambda>x y. tipo (obj s x) = tipo (obj s y) \<longrightarrow> x < y) (nao_atendidos s)"
    using alcancavel_ordem_chegada [OF assms(1)] by (simp add: ordem_chegada_def)
  ultimately have "sorted_wrt ?R (nao_atendidos s)"
    by (rule sorted_wrt_ambos)
  from sorted_wrt_um_dos_dois [OF this assms(2,3)] assms(4,5) show ?thesis by auto
qed

section \<open>Sequences of arrivals\<close>

lemma enfileirar_Cons:
  "enfileirar_todos ((novo, agora) # resto) s
     = (prox s # fst (enfileirar_todos resto (snd (post_fila novo agora s))),
        snd (enfileirar_todos resto (snd (post_fila novo agora s))))"
  by (simp add: post_fila_conv split: prod.split)

lemma enfileirar_length: "length (fst (enfileirar_todos entradas s)) = length entradas"
proof (induction entradas arbitrary: s)
  case Nil
  then show ?case by simp
next
  case (Cons e entradas)
  obtain novo agora where e: "e = (novo, agora)" by (cases e)
  show ?case unfolding e enfileirar_Cons by (simp add: Cons.IH)
qed

lemma enfileirar_refs:
  "k < length entradas \<Longrightarrow> fst (enfileirar_todos entradas s) ! k = prox s + k"
proof (induction entradas arbitrary: s k)
  case Nil
  then show ?case by simp
next
  case (Cons e entradas)
  obtain novo agora where e: "e = (novo, agora)" by (cases e)
  show ?case
  proof (cases k)
    case 0
    then show ?thesis unfolding e enfileirar_Cons by simp
  next
    case (Suc k')
    with Cons.prems have "k' < length entradas" by simp
    from Cons.IH [OF this, of "snd (post_fila novo agora s)"] Suc show ?thesis
      unfolding e enfileirar_Cons by (simp add: prox_post)
  qed
qed

lemma enfileirar_alcancavel:
  "alcancavel s \<Longrightarrow> alcancavel (snd (enfileirar_todos entradas s))"
proof (induction entradas arbitrary: s)
  case Nil
  then show ?case by simp
next
  case (Cons e entradas)
  obtain novo agora where e: "e = (novo, agora)" by (cases e)
  have "alcancavel (atender (PostFila novo agora) s)"
    using Cons.prems by (rule alcancavel.passo)
  then have "alcancavel (snd (post_fila novo agora s))" by simp
  from Cons.IH [OF this] show ?case unfolding e enfileirar_Cons by simp
qed

lemma post_fila_mantem:
  assumes "r \<noteq> prox s" and "r \<in> set (nao_atendidos s)"
  shows "r \<in> set (nao_atendidos (snd (post_fila novo agora s)))"
  using assms
  by (simp add: post_fila_conv nao_atendido_recalc_iff fila_anexado obj_anexado)
    (simp add: nao_atendidos_def)

lemma enfileirar_mantem:
  "alcancavel s \<Longrightarrow> r \<in> set (nao_atendidos s) \<Longrightarrow>
     r \<in> set (nao_atendidos (snd (enfileirar_todos entradas s)))
     \<and> tipo (obj (snd (enfileirar_todos entradas s)) r) = tipo (obj s r)"
proof (induction entradas arbitrary: s)
  case Nil
  then show ?case by simp
next
  case (Cons e entradas)
  obtain novo agora where e: "e = (novo, agora)" by (cases e)
  let ?s1 = "snd (post_fila novo agora s)"
  have "r \<in> set (fila s)" using Cons.prems(2) nao_atendidos_na_fila [of s] by auto
  then have "r < prox s"
    using alcancavel_bem_formado [OF Cons.prems(1)] by (simp add: bem_formado_alocado)
  then have ne: "r \<noteq> prox s" by simp
  have "alcancavel (atender (PostFila novo agora) s)"
    using Cons.prems(1) by (rule alcancavel.passo)
  then have r1: "alcancavel ?s1" by simp
  have m1: "r \<in> set (nao_atendidos ?s1)" using ne Cons.prems(2) by (rule post_fila_mantem)
  from Cons.IH [OF r1 m1] show ?case
    unfolding e enfileirar_Cons by (simp add: post_fila_campos [OF ne])
qed

lemma enfileirar_novos:
  "alcancavel s \<Longrightarrow> k < length entradas \<Longrightarrow>
     fst (enfileirar_todos entradas s) ! k
       \<in> set (nao_atendidos (snd (enfileirar_todos entradas s)))
     \<and> tipo (obj (snd (enfileirar_todos entradas s)) (fst (enfileirar_todos entradas s) ! k))
       = tipo_in (fst (entradas ! k))"
proof (induction entradas arbitrary: s k)
  case Nil
  then show ?case by simp
next
  case (Cons e entradas)
  obtain novo agora where e: "e = (novo, agora)" by (cases e)
  let ?s1 = "snd (post_fila novo agora s)"
  have "alcancavel (atender (PostFila novo agora) s)"
    using Cons.prems(1) by (rule alcancavel.passo)
  then have r1: "alcancavel ?s1" by simp
  show ?case
  proof (cases k)
    case 0
    have "prox s \<in> set (nao_atendidos ?s1)" by (rule novo_nao_atendido)
    from enfileirar_mantem [OF r1 this, of entradas] 0 show ?thesis
      unfolding e enfileirar_Cons by (simp add: campos_do_novo)
  next
    case (Suc k')
    with Cons.prems(2) have "k' < length entradas" by simp
    from Cons.IH [OF r1 this] Suc show ?thesis
      unfolding e enfileirar_Cons by simp
  qed
qed

section \<open>The claims\<close>

text \<open>
  C4. The renumbering is idempotent: for every state of the store, running
  \<^verbatim>\<open>ordenar_recalcular_posicoes\<close> twice in a row, with nothing in between, gives
  the same state as running it once: the same order of the list and the same
  object at every address, so the same position of every entry.
\<close>

theorem C4_recompute_idempotent:
  "ordenar_recalcular_posicoes (ordenar_recalcular_posicoes s) = ordenar_recalcular_posicoes s"
  by (rule recalc_idempotente)

text \<open>
  C1. In every reachable state of the store, and so after the renumbering of
  such a state and after every request (POST, PUT, DELETE and the two reads), the
  positions of the unserved entries, read along the list, are exactly
  1, 2, ..., K, where K is the number of unserved entries: no duplicate, no gap.
\<close>

theorem C1_posicoes_contiguas:
  assumes "alcancavel s"
  shows "posicoes_contiguas s
         \<and> posicoes_contiguas (ordenar_recalcular_posicoes s)
         \<and> posicoes_contiguas (atender rq s)"
  using assms
  by (intro conjI alcancavel_posicoes_contiguas alcancavel_recalc alcancavel.passo)

text \<open>The run Ana (N), Bob (P): positions 1, 2 along the list; after PUT, position 1 only.\<close>

theorem C1_posicoes_contiguas_witness:
  "alcancavel estado_ana_bob
   \<and> posicoes estado_ana_bob = [1, 2]
   \<and> posicoes_contiguas (ordenar_recalcular_posicoes estado_ana_bob)
   \<and> posicoes_contiguas (atender PutFila estado_ana_bob)
   \<and> posicoes (atender PutFila estado_ana_bob) = [1]"
proof -
  have "posicoes estado_ana_bob = [1, 2]"
    by (simp add: estado_ana_bob_val avaliar)
  moreover have "posicoes (atender PutFila estado_ana_bob) = [1]"
    by (simp add: estado_ana_bob_val avaliar)
  ultimately show ?thesis
    using C1_posicoes_contiguas [OF alcancavel_ana_bob, of PutFila] alcancavel_ana_bob
    by simp
qed

text \<open>
  C2. In every reachable state of the store, after the renumbering and after
  every request, an unserved entry of type P has a strictly smaller position than
  any unserved entry of type N.
\<close>

theorem C2_prioritarios_primeiro:
  assumes "alcancavel s"
  shows "prioritarios_primeiro s
         \<and> prioritarios_primeiro (ordenar_recalcular_posicoes s)
         \<and> prioritarios_primeiro (atender rq s)"
  using assms
  by (intro conjI alcancavel_prioritarios_primeiro alcancavel_recalc alcancavel.passo)

text \<open>After Ana (N) and Bob (P), Bob has position 1 and Ana position 2.\<close>

theorem C2_prioritarios_primeiro_witness:
  "alcancavel estado_ana_bob
   \<and> prioritarios_primeiro estado_ana_bob
   \<and> nao_atendidos estado_ana_bob = [1, 0]
   \<and> tipo (obj estado_ana_bob 1) = P \<and> posicao (obj estado_ana_bob 1) = 1
   \<and> tipo (obj estado_ana_bob 0) = N \<and> posicao (obj estado_ana_bob 0) = 2"
  using C2_prioritarios_primeiro [OF alcancavel_ana_bob, of GetFila] alcancavel_ana_bob
  by (simp add: estado_ana_bob_val obj_def deref_def nao_atendidos_def)

text \<open>
  C10. For a reachable state of the store, after the renumbering: a served entry
  of the list has position 0 and an unserved one a position of at least 1; so a
  lookup of a position \<open>p \<ge> 1\<close> that finds an entry finds an unserved one, and
  GET /fila/{id} and DELETE /fila/{id} with \<open>id \<le> 0\<close> raise the 404.
\<close>

theorem C10_posicao_sentinela:
  assumes "alcancavel s"
  shows "(\<forall>c\<in>set (fila (ordenar_recalcular_posicoes s)).
            (atendido (obj (ordenar_recalcular_posicoes s) c)
               \<longrightarrow> posicao (obj (ordenar_recalcular_posicoes s) c) = 0)
          \<and> (\<not> atendido (obj (ordenar_recalcular_posicoes s) c)
               \<longrightarrow> 1 \<le> posicao (obj (ordenar_recalcular_posicoes s) c)))
       \<and> (1 \<le> p \<and> encontrar_por_posicao p (ordenar_recalcular_posicoes s) = Some c
            \<longrightarrow> \<not> atendido (obj (ordenar_recalcular_posicoes s) c))
       \<and> (ident \<le> 0
            \<longrightarrow> fst (get_fila_id ident s) = Inl (nao_encontrado ident)
              \<and> fst (delete_fila_id ident s) = Inl (nao_encontrado ident))"
proof (intro conjI ballI impI)
  let ?s1 = "ordenar_recalcular_posicoes s"
  have r1: "alcancavel ?s1" using assms by (rule alcancavel_recalc)
  show "posicao (obj ?s1 d) = 0" if "d \<in> set (fila ?s1)" "atendido (obj ?s1 d)" for d
    using r1 that by (rule atendido_posicao_zero)
  show "1 \<le> posicao (obj ?s1 d)" if "d \<in> set (fila ?s1)" "\<not> atendido (obj ?s1 d)" for d
    using r1 that by (rule nao_atendido_posicao_positiva)
  show "\<not> atendido (obj ?s1 c)" if "1 \<le> p \<and> encontrar_por_posicao p ?s1 = Some c"
    using r1 that by (auto dest: encontrado_positivo_nao_atendido)
  show "fst (get_fila_id ident s) = Inl (nao_encontrado ident)" if "ident \<le> 0"
    using nao_positivo_ausente [OF assms that] by (simp add: get_fila_id_ausente)
  show "fst (delete_fila_id ident s) = Inl (nao_encontrado ident)" if "ident \<le> 0"
    using nao_positivo_ausente [OF assms that] by (simp add: delete_fila_id_ausente)
qed

text \<open>
  After Ana (N), Bob (P) and one PUT: Bob is served and has position 0, Ana is
  unserved at position 1, the lookup of position 1 finds Ana, and position 0 is
  not found although Bob holds it.
\<close>

theorem C10_posicao_sentinela_witness:
  "alcancavel estado_bob_atendido
   \<and> fila (ordenar_recalcular_posicoes estado_bob_atendido) = [0, 1]
   \<and> atendido (obj (ordenar_recalcular_posicoes estado_bob_atendido) 1)
   \<and> posicao (obj (ordenar_recalcular_posicoes estado_bob_atendido) 1) = 0
   \<and> \<not> atendido (obj (ordenar_recalcular_posicoes estado_bob_atendido) 0)
   \<and> posicao (obj (ordenar_recalcular_posicoes estado_bob_atendido) 0) = 1
   \<and> encontrar_por_posicao 1 (ordenar_recalcular_posicoes estado_bob_atendido) = Some 0
   \<and> (0::int) \<le> 0
   \<and> fst (get_fila_id 0 estado_bob_atendido) = Inl (nao_encontrado 0)
   \<and> fst (delete_fila_id 0 estado_bob_atendido) = Inl (nao_encontrado 0)"
proof -
  have "fila (ordenar_recalcular_posicoes estado_bob_atendido) = [0, 1]"
    and "encontrar_por_posicao 1 (ordenar_recalcular_posicoes estado_bob_atendido) = Some 0"
    and "atendido (obj (ordenar_recalcular_posicoes estado_bob_atendido) 1)"
    and "\<not> atendido (obj (ordenar_recalcular_posicoes estado_bob_atendido) 0)"
    and "posicao (obj (ordenar_recalcular_posicoes estado_bob_atendido) 0) = 1"
    by (simp_all add: estado_bob_atendido_val avaliar)
  then show ?thesis
    using C10_posicao_sentinela [OF alcancavel_bob_atendido, of 1 0 0] alcancavel_bob_atendido
    by simp
qed

text \<open>
  C7. PUT /fila on a reachable state of the store. When the renumbering leaves
  no unserved entry, the store is unchanged and the returned list is empty. When
  the unserved entries after the renumbering are \<open>c # cs\<close>, the entry \<open>c\<close> is the
  one at position 1; the handler returns \<open>cs\<close>, the remaining unserved entries in
  their order, renumbered 1, 2, ...; \<open>c\<close> is served afterwards, with position 0,
  and differs from before in nothing else; no other object changes its served
  flag; and \<open>c\<close> stays in the list, at the head of the served entries.
\<close>

theorem C7_put_fila:
  assumes "alcancavel s"
  shows "(nao_atendidos (ordenar_recalcular_posicoes s) = [] \<longrightarrow> put_fila s = ([], s))
       \<and> (nao_atendidos (ordenar_recalcular_posicoes s) = c # cs \<longrightarrow>
            posicao (obj (ordenar_recalcular_posicoes s) c) = 1
          \<and> \<not> atendido (obj (ordenar_recalcular_posicoes s) c)
          \<and> fst (put_fila s) = cs
          \<and> nao_atendidos (snd (put_fila s)) = cs
          \<and> posicoes (snd (put_fila s)) = [1..int (length cs)]
          \<and> obj (snd (put_fila s)) c
               = (obj (ordenar_recalcular_posicoes s) c)\<lparr>posicao := 0, atendido := True\<rparr>
          \<and> (\<forall>r. r \<noteq> c \<longrightarrow> atendido (obj (snd (put_fila s)) r) = atendido (obj s r))
          \<and> fila (snd (put_fila s)) = cs @ c # ja_atendidos s)"
proof (intro conjI impI allI)
  let ?s1 = "ordenar_recalcular_posicoes s"
  have d: "distinct (fila s)"
    using assms by (intro invariante_distinct alcancavel_invariante)
  show "put_fila s = ([], s)" if "nao_atendidos ?s1 = []"
    using assms that by (rule put_fila_sem_fila)
  show "posicao (obj ?s1 c) = 1" if "nao_atendidos ?s1 = c # cs"
    using posicoes_contiguas_recalc [OF d] that by (rule posicao_da_cabeca)
  show "\<not> atendido (obj ?s1 c)" if "nao_atendidos ?s1 = c # cs"
  proof -
    from that have "c \<in> set (nao_atendidos ?s1)" by simp
    then show ?thesis by (simp add: nao_atendidos_def)
  qed
  show "fst (put_fila s) = cs" if "nao_atendidos ?s1 = c # cs"
    using put_fila_com_fila(1) [OF d that] by simp
  show "nao_atendidos (snd (put_fila s)) = cs" if "nao_atendidos ?s1 = c # cs"
    using d that by (rule put_fila_com_fila(3))
  show "posicoes (snd (put_fila s)) = [1..int (length cs)]" if "nao_atendidos ?s1 = c # cs"
  proof -
    have "alcancavel (atender PutFila s)" using assms by (rule alcancavel.passo)
    then have "posicoes_contiguas (snd (put_fila s))"
      by (simp add: alcancavel_posicoes_contiguas)
    then show ?thesis
      by (simp add: posicoes_contiguas_def put_fila_com_fila(3) [OF d that])
  qed
  show "obj (snd (put_fila s)) c = (obj ?s1 c)\<lparr>posicao := 0, atendido := True\<rparr>"
    if "nao_atendidos ?s1 = c # cs"
    using d that by (rule put_fila_com_fila(4))
  show "atendido (obj (snd (put_fila s)) r) = atendido (obj s r)"
    if "nao_atendidos ?s1 = c # cs" "r \<noteq> c" for r
    using d that by (rule put_fila_outros)
  show "fila (snd (put_fila s)) = cs @ c # ja_atendidos s" if "nao_atendidos ?s1 = c # cs"
    using d that by (rule put_fila_com_fila(2))
qed

text \<open>
  With Bob (P) at position 1 and Ana (N) at position 2, PUT returns Ana alone,
  now at position 1, and Bob is served with position 0. With both served, PUT
  returns the empty list and leaves the store as it is.
\<close>

theorem C7_put_fila_witness:
  "alcancavel estado_ana_bob
   \<and> nao_atendidos (ordenar_recalcular_posicoes estado_ana_bob) = [1, 0]
   \<and> fst (put_fila estado_ana_bob) = [0]
   \<and> posicoes (snd (put_fila estado_ana_bob)) = [1]
   \<and> obj (snd (put_fila estado_ana_bob)) 1
        = \<lparr>posicao = 0, nome = ''Bob'', chegada = 200, tipo = P, atendido = True\<rparr>
   \<and> fila (snd (put_fila estado_ana_bob)) = [0, 1]
   \<and> alcancavel estado_todos_atendidos
   \<and> nao_atendidos (ordenar_recalcular_posicoes estado_todos_atendidos) = []
   \<and> put_fila estado_todos_atendidos = ([], estado_todos_atendidos)"
proof -
  have a: "nao_atendidos (ordenar_recalcular_posicoes estado_ana_bob) = [1, 0]"
    by (simp add: estado_ana_bob_val avaliar)
  have b: "obj (ordenar_recalcular_posicoes estado_ana_bob) 1
             = \<lparr>posicao = 1, nome = ''Bob'', chegada = 200, tipo = P, atendido = False\<rparr>"
    by (simp add: estado_ana_bob_val avaliar)
  have c: "ja_atendidos estado_ana_bob = []"
    by (simp add: estado_ana_bob_val ja_atendidos_def obj_def deref_def)
  have e: "nao_atendidos (ordenar_recalcular_posicoes estado_todos_atendidos) = []"
    by (simp add: estado_todos_atendidos_val avaliar)
  show ?thesis
    using C7_put_fila [OF alcancavel_ana_bob, of 1 "[0]"]
      C7_put_fila [OF alcancavel_todos_atendidos, of 0 "[]"]
      alcancavel_ana_bob alcancavel_todos_atendidos a b c e
    by simp
qed

text \<open>
  C8. DELETE /fila/{id} on a reachable state of the store, with a position \<open>p\<close>
  that the unserved entry \<open>c\<close> holds after the renumbering: the call succeeds;
  the list afterwards is the renumbered list without \<open>c\<close>, so \<open>c\<close> is gone from
  the list (not marked served) and every other entry, the served ones included,
  is still there in the same order; the remaining unserved entries have the
  positions 1, 2, ...; and whatever requests follow, \<open>c\<close> is never in the list
  again and no read returns it.
\<close>

theorem C8_delete_fila_id:
  assumes "alcancavel s"
    and "c \<in> set (nao_atendidos (ordenar_recalcular_posicoes s))"
    and "posicao (obj (ordenar_recalcular_posicoes s) c) = p"
  shows "fst (delete_fila_id p s) = Inr ()
       \<and> fila (snd (delete_fila_id p s)) = remove1 c (fila (ordenar_recalcular_posicoes s))
       \<and> set (fila (snd (delete_fila_id p s))) = set (fila s) - {c}
       \<and> atendido (obj (snd (delete_fila_id p s)) c) = atendido (obj s c)
       \<and> ja_atendidos (snd (delete_fila_id p s)) = ja_atendidos s
       \<and> nao_atendidos (snd (delete_fila_id p s))
            = remove1 c (nao_atendidos (ordenar_recalcular_posicoes s))
       \<and> posicoes_contiguas (snd (delete_fila_id p s))
       \<and> c \<notin> set (fila (atender_todas rqs (snd (delete_fila_id p s))))
       \<and> c \<notin> set (fst (get_fila (atender_todas rqs (snd (delete_fila_id p s)))))
       \<and> fst (get_fila_id q (atender_todas rqs (snd (delete_fila_id p s)))) \<noteq> Inr c"
proof -
  let ?s1 = "ordenar_recalcular_posicoes s"
  let ?s' = "snd (delete_fila_id p s)"
  have d: "distinct (fila s)"
    using assms(1) by (intro invariante_distinct alcancavel_invariante)
  then have d1: "distinct (fila ?s1)" by (rule distinct_fila_recalc)
  note r = delete_fila_id_remove [OF d assms(2,3)]
  have conj: "set (fila ?s') = set (fila s) - {c}"
    using d1 by (simp add: r(2) set_fila_recalc)
  have reach: "alcancavel ?s'"
    using alcancavel.passo [OF assms(1), of "DeleteFilaId p"] by simp
  have "c \<in> set (fila s)" using assms(2) by (simp add: nao_atendido_recalc_iff)
  then have "c < prox s"
    using alcancavel_bem_formado [OF assms(1)] by (simp add: bem_formado_alocado)
  then have "c < prox ?s'" by (simp add: prox_delete)
  moreover have "c \<notin> set (fila ?s')" by (simp add: conj)
  ultimately have gone: "c \<notin> set (fila (atender_todas rqs ?s'))"
    by (rule fora_da_fila_para_sempre)
  have "c \<notin> set (fst (get_fila (atender_todas rqs ?s')))"
    using gone get_fila_na_fila [of "atender_todas rqs ?s'"] by auto
  moreover have "fst (get_fila_id q (atender_todas rqs ?s')) \<noteq> Inr c"
    using gone get_fila_id_na_fila [of q "atender_todas rqs ?s'" c] by auto
  ultimately show ?thesis
    using r conj gone reach
    by (simp add: delete_fila_id_objetos alcancavel_posicoes_contiguas)
qed

text \<open>
  With Bob served and Ana unserved at position 1, DELETE of position 1 removes
  Ana; the served Bob stays in the list, and a later listing, also after a new
  arrival, does not show Ana.
\<close>

theorem C8_delete_fila_id_witness:
  "alcancavel estado_bob_atendido
   \<and> 0 \<in> set (nao_atendidos (ordenar_recalcular_posicoes estado_bob_atendido))
   \<and> posicao (obj (ordenar_recalcular_posicoes estado_bob_atendido) 0) = 1
   \<and> fst (delete_fila_id 1 estado_bob_atendido) = Inr ()
   \<and> fila (snd (delete_fila_id 1 estado_bob_atendido)) = [1]
   \<and> nao_atendidos (snd (delete_fila_id 1 estado_bob_atendido)) = []
   \<and> 0 \<notin> set (fst (get_fila (atender_todas [PostFila carla 300]
                                  (snd (delete_fila_id 1 estado_bob_atendido)))))"
proof -
  have a: "nao_atendidos (ordenar_recalcular_posicoes estado_bob_atendido) = [0]"
    and b: "posicao (obj (ordenar_recalcular_posicoes estado_bob_atendido) 0) = 1"
    and c: "fila (ordenar_recalcular_posicoes estado_bob_atendido) = [0, 1]"
    by (simp_all add: estado_bob_atendido_val avaliar)
  have m: "0 \<in> set (nao_atendidos (ordenar_recalcular_posicoes estado_bob_atendido))"
    by (simp add: a)
  show ?thesis
    using C8_delete_fila_id [OF alcancavel_bob_atendido m b, of "[PostFila carla 300]" 1]
      alcancavel_bob_atendido a b c
    by simp
qed

text \<open>
  C5. POST /fila on a reachable state of the store, for every body and clock
  value (the valid ones among them). The handler creates a new object, not yet
  in the list, with the name and type of the body, the clock value as arrival
  time, served false and the placeholder position 999999; appends it at the end
  of the list; renumbers; and returns that same object. At the return the object
  is in the list, unserved, with its fields as created and with the position the
  renumbering gave it: one more than the number of unserved priority entries
  before the call for type P, one more than the number of all unserved entries
  before the call for type N. The list has gained this object and nothing else.
\<close>

theorem C5_post_fila:
  assumes "alcancavel s"
  shows "fst (post_fila novo agora s) = prox s
       \<and> prox s \<notin> set (fila s)
       \<and> fila (anexado novo agora s) = fila s @ [prox s]
       \<and> obj (anexado novo agora s) (prox s)
            = \<lparr>posicao = 999999, nome = nome_in novo, chegada = agora,
               tipo = tipo_in novo, atendido = False\<rparr>
       \<and> snd (post_fila novo agora s) = ordenar_recalcular_posicoes (anexado novo agora s)
       \<and> set (fila (snd (post_fila novo agora s))) = insert (prox s) (set (fila s))
       \<and> prox s \<in> set (nao_atendidos (snd (post_fila novo agora s)))
       \<and> nome (obj (snd (post_fila novo agora s)) (prox s)) = nome_in novo
       \<and> chegada (obj (snd (post_fila novo agora s)) (prox s)) = agora
       \<and> tipo (obj (snd (post_fila novo agora s)) (prox s)) = tipo_in novo
       \<and> atendido (obj (snd (post_fila novo agora s)) (prox s)) = False
       \<and> posicao (obj (snd (post_fila novo agora s)) (prox s))
            = (if tipo_in novo = P
               then 1 + int (length (filter (\<lambda>c. tipo (obj s c) = P) (nao_atendidos s)))
               else 1 + int (length (nao_atendidos s)))
       \<and> posicoes_contiguas (snd (post_fila novo agora s))"
proof -
  have bf: "bem_formado s" using assms by (rule alcancavel_bem_formado)
  have "alcancavel (atender (PostFila novo agora) s)" using assms by (rule alcancavel.passo)
  then have "posicoes_contiguas (snd (post_fila novo agora s))"
    by (simp add: alcancavel_posicoes_contiguas)
  moreover have "obj (anexado novo agora s) (prox s)
            = \<lparr>posicao = 999999, nome = nome_in novo, chegada = agora,
               tipo = tipo_in novo, atendido = False\<rparr>"
    by (simp add: obj_anexado novo_cliente_def)
  ultimately show ?thesis
    using bem_formado_fresco [OF bf] posicao_do_novo [OF bf, of novo agora]
    by (simp add: campos_do_novo novo_nao_atendido set_fila_post fila_anexado)
      (simp add: post_fila_conv)
qed

text \<open>
  Ana (N) is alone in the queue. The POST of Bob (P) returns the new object with
  position 1, and Ana now has position 2.
\<close>

theorem C5_post_fila_witness:
  "alcancavel estado_ana
   \<and> fst (post_fila bob 200 estado_ana) = 1
   \<and> obj (snd (post_fila bob 200 estado_ana)) 1
        = \<lparr>posicao = 1, nome = ''Bob'', chegada = 200, tipo = P, atendido = False\<rparr>
   \<and> fila (snd (post_fila bob 200 estado_ana)) = [1, 0]
   \<and> posicao (obj (snd (post_fila bob 200 estado_ana)) 0) = 2"
proof -
  have "obj (snd (post_fila bob 200 estado_ana)) 1
        = \<lparr>posicao = 1, nome = ''Bob'', chegada = 200, tipo = P, atendido = False\<rparr>"
    and "fila (snd (post_fila bob 200 estado_ana)) = [1, 0]"
    and "posicao (obj (snd (post_fila bob 200 estado_ana)) 0) = 2"
    and "prox estado_ana = 1"
    by (simp_all add: estado_ana_val avaliar)
  then show ?thesis
    using C5_post_fila [OF alcancavel_ana, of bob 200] alcancavel_ana
    by simp
qed

text \<open>
  C6, as the claim states it, fails on the text of the message. In the initial
  store no unserved entry holds position 5, and neither GET /fila/5 nor
  DELETE /fila/5 raises a 404 whose detail is "No client at position 5.": the
  detail the code builds is the Portuguese sentence of \<open>detalhe\<close>.
\<close>

theorem C6_mensagem_counterexample:
  "nao_atendidos (ordenar_recalcular_posicoes estado_inicial) = []
   \<and> fst (get_fila_id 5 estado_inicial) \<noteq> Inl (HTTPException 404 ''No client at position 5.'')
   \<and> fst (delete_fila_id 5 estado_inicial) \<noteq> Inl (HTTPException 404 ''No client at position 5.'')
   \<and> fst (get_fila_id 5 estado_inicial)
        = Inl (HTTPException 404
            (''N'' @ [CHR 0xE3] @ ''o existe cliente na posi'' @ [CHR 0xE7, CHR 0xE3] @ ''o 5.''))"
  by (simp add: avaliar nao_encontrado_def detalhe_def str_int_def digito_def)

text \<open>
  C6, amended. For every state of the store and every integer \<open>p\<close>,
  GET /fila/{p} and DELETE /fila/{p} raise the 404 exactly when, after the
  renumbering, no unserved entry holds position \<open>p\<close>; the detail of the 404 is
  the sentence of the source with the decimal form of \<open>p\<close> in it. Otherwise GET
  returns an unserved entry at position \<open>p\<close> and DELETE succeeds; neither raises
  anything else.
\<close>

theorem C6_nao_encontrado:
  "((fst (get_fila_id p s) = Inl (HTTPException 404 (detalhe p)))
      = (\<not> (\<exists>c\<in>set (nao_atendidos (ordenar_recalcular_posicoes s)).
               posicao (obj (ordenar_recalcular_posicoes s) c) = p)))
   \<and> ((fst (delete_fila_id p s) = Inl (HTTPException 404 (detalhe p)))
      = (\<not> (\<exists>c\<in>set (nao_atendidos (ordenar_recalcular_posicoes s)).
               posicao (obj (ordenar_recalcular_posicoes s) c) = p)))
   \<and> ((\<exists>c\<in>set (nao_atendidos (ordenar_recalcular_posicoes s)).
          posicao (obj (ordenar_recalcular_posicoes s) c) = p)
       \<longrightarrow> (\<exists>d. fst (get_fila_id p s) = Inr d
                \<and> d \<in> set (nao_atendidos (ordenar_recalcular_posicoes s))
                \<and> posicao (obj (ordenar_recalcular_posicoes s) d) = p)
           \<and> fst (delete_fila_id p s) = Inr ())
   \<and> detalhe p
        = ''N'' @ [CHR 0xE3] @ ''o existe cliente na posi'' @ [CHR 0xE7, CHR 0xE3] @ ''o ''
            @ str_int p @ ''.''"
proof (cases "\<exists>c\<in>set (nao_atendidos (ordenar_recalcular_posicoes s)).
                posicao (obj (ordenar_recalcular_posicoes s) c) = p")
  case True
  then obtain c where c: "c \<in> set (nao_atendidos (ordenar_recalcular_posicoes s))"
      "posicao (obj (ordenar_recalcular_posicoes s) c) = p"
    by blast
  from get_fila_id_presente [OF c] obtain d
    where g: "get_fila_id p s = (Inr d, ordenar_recalcular_posicoes s)"
      "d \<in> set (nao_atendidos (ordenar_recalcular_posicoes s))"
      "posicao (obj (ordenar_recalcular_posicoes s) d) = p"
    by blast
  from encontrar_recalc_presente [OF c] obtain e
    where e: "encontrar_por_posicao p (ordenar_recalcular_posicoes s) = Some e"
      "e \<in> set (nao_atendidos (ordenar_recalcular_posicoes s))"
    by blast
  from e(2) have "\<not> atendido (obj (ordenar_recalcular_posicoes s) e)"
    by (simp add: nao_atendidos_def)
  with e(1) have "fst (delete_fila_id p s) = Inr ()"
    by (simp add: delete_fila_id_presente)
  with True g show ?thesis by (auto simp: detalhe_def)
next
  case False
  then have ausente: "\<forall>c\<in>set (nao_atendidos (ordenar_recalcular_posicoes s)).
                        posicao (obj (ordenar_recalcular_posicoes s) c) \<noteq> p"
    by blast
  from False get_fila_id_ausente [OF ausente] delete_fila_id_ausente [OF ausente]
  show ?thesis by (simp add: nao_encontrado_def detalhe_def)
qed

text \<open>
  With Bob at position 1 and Ana at position 2: GET of position 2 returns Ana and
  DELETE of it succeeds; position 5 is held by nobody and both raise the 404,
  whose detail ends in "5.".
\<close>

theorem C6_nao_encontrado_witness:
  "nao_atendidos (ordenar_recalcular_posicoes estado_ana_bob) = [1, 0]
   \<and> posicao (obj (ordenar_recalcular_posicoes estado_ana_bob) 0) = 2
   \<and> fst (get_fila_id 2 estado_ana_bob) = Inr 0
   \<and> fst (delete_fila_id 2 estado_ana_bob) = Inr ()
   \<and> posicoes (ordenar_recalcular_posicoes estado_ana_bob) = [1, 2]
   \<and> fst (get_fila_id 5 estado_ana_bob) = Inl (HTTPException 404 (detalhe 5))
   \<and> fst (delete_fila_id 5 estado_ana_bob) = Inl (HTTPException 404 (detalhe 5))
   \<and> detalhe 5
        = ''N'' @ [CHR 0xE3] @ ''o existe cliente na posi'' @ [CHR 0xE7, CHR 0xE3] @ ''o 5.''"
proof -
  have a: "nao_atendidos (ordenar_recalcular_posicoes estado_ana_bob) = [1, 0]"
    and b: "posicao (obj (ordenar_recalcular_posicoes estado_ana_bob) 0) = 2"
    and c: "posicao (obj (ordenar_recalcular_posicoes estado_ana_bob) 1) = 1"
    and g: "fst (get_fila_id 2 estado_ana_bob) = Inr 0"
    by (simp_all add: estado_ana_bob_val avaliar)
  have e: "str_int 5 = ''5''" by (simp add: str_int_def digito_def)
  have p: "posicoes (ordenar_recalcular_posicoes estado_ana_bob) = [1, 2]"
    by (simp add: estado_ana_bob_val avaliar)
  show ?thesis
    using C6_nao_encontrado [of 2 estado_ana_bob] C6_nao_encontrado [of 5 estado_ana_bob]
      a b c g e p
    by simp
qed

text \<open>
  C9. The name, the type and the arrival time of an entry never change. For the
  entry that a POST creates, after every sequence of later requests the three
  fields are those of the body and the clock value of that POST; more generally
  they are kept by every sequence of requests for every object created before
  it (an address below \<open>prox\<close>). The renumbering changes the position of an
  object and nothing else, and PUT changes the position and the served flag and
  nothing else.
\<close>

theorem C9_campos_imutaveis:
  "nome (obj (atender_todas rqs (snd (post_fila novo agora s))) (fst (post_fila novo agora s)))
     = nome_in novo
   \<and> tipo (obj (atender_todas rqs (snd (post_fila novo agora s))) (fst (post_fila novo agora s)))
     = tipo_in novo
   \<and> chegada (obj (atender_todas rqs (snd (post_fila novo agora s))) (fst (post_fila novo agora s)))
     = agora
   \<and> (r < prox s \<longrightarrow>
        nome (obj (atender_todas rqs s) r) = nome (obj s r)
      \<and> tipo (obj (atender_todas rqs s) r) = tipo (obj s r)
      \<and> chegada (obj (atender_todas rqs s) r) = chegada (obj s r))
   \<and> obj (ordenar_recalcular_posicoes s) r
        = (obj s r)\<lparr>posicao := posicao (obj (ordenar_recalcular_posicoes s) r)\<rparr>
   \<and> obj (snd (put_fila s)) r
        = (obj s r)\<lparr>posicao := posicao (obj (snd (put_fila s)) r),
                    atendido := atendido (obj (snd (put_fila s)) r)\<rparr>"
proof -
  have "prox s < prox (snd (post_fila novo agora s))" by (simp add: prox_post)
  from atender_todas_campos [OF this, of rqs]
  have "nome (obj (atender_todas rqs (snd (post_fila novo agora s))) (prox s)) = nome_in novo"
    and "tipo (obj (atender_todas rqs (snd (post_fila novo agora s))) (prox s)) = tipo_in novo"
    and "chegada (obj (atender_todas rqs (snd (post_fila novo agora s))) (prox s)) = agora"
    by (simp_all add: campos_do_novo)
  moreover have "fst (post_fila novo agora s) = prox s" by (simp add: post_fila_conv)
  ultimately show ?thesis
    using atender_todas_campos [of r s rqs] recalc_so_posicao [of s r]
      put_fila_so_posicao_e_atendido [of s r]
    by simp
qed

text \<open>
  Ana was created at address 0 with arrival time 100. After Bob's arrival, a
  PUT, Carla's arrival, a DELETE of position 1 and a listing, the object still
  has her name, type and arrival time.
\<close>

theorem C9_campos_imutaveis_witness:
  "(0::nat) < prox estado_ana_bob
   \<and> nome (obj (atender_todas [PutFila, PostFila carla 300, DeleteFilaId 1, GetFila]
                  estado_ana_bob) 0) = ''Ana''
   \<and> tipo (obj (atender_todas [PutFila, PostFila carla 300, DeleteFilaId 1, GetFila]
                  estado_ana_bob) 0) = N
   \<and> chegada (obj (atender_todas [PutFila, PostFila carla 300, DeleteFilaId 1, GetFila]
                     estado_ana_bob) 0) = 100"
proof -
  have "(0::nat) < prox estado_ana_bob"
    and "obj estado_ana_bob 0
           = \<lparr>posicao = 2, nome = ''Ana'', chegada = 100, tipo = N, atendido = False\<rparr>"
    by (simp_all add: estado_ana_bob_val obj_def deref_def)
  then show ?thesis
    using C9_campos_imutaveis
      [of "[PutFila, PostFila carla 300, DeleteFilaId 1, GetFila]" ana 0 estado_ana_bob 0]
    by simp
qed

text \<open>
  C3. For every sequence of POST requests, run from a reachable state of the
  store (the empty initial store among them), and every two of its entries of the
  same type: both are unserved in the list afterwards, and the one enqueued
  earlier has the smaller position, at the end of the sequence and after a
  further renumbering.
\<close>

theorem C3_ordem_de_chegada:
  assumes "alcancavel s0"
    and "enfileirar_todos entradas s0 = (cs, s)"
    and "i < j" and "j < length entradas"
    and "tipo_in (fst (entradas ! i)) = tipo_in (fst (entradas ! j))"
  shows "cs ! i \<in> set (nao_atendidos s) \<and> cs ! j \<in> set (nao_atendidos s)
       \<and> tipo (obj s (cs ! i)) = tipo_in (fst (entradas ! i))
       \<and> tipo (obj s (cs ! j)) = tipo_in (fst (entradas ! j))
       \<and> posicao (obj s (cs ! i)) < posicao (obj s (cs ! j))
       \<and> posicao (obj (ordenar_recalcular_posicoes s) (cs ! i))
           < posicao (obj (ordenar_recalcular_posicoes s) (cs ! j))"
proof -
  from assms(2) have cs: "cs = fst (enfileirar_todos entradas s0)"
    and s: "s = snd (enfileirar_todos entradas s0)"
    by simp_all
  from assms(3,4) have i: "i < length entradas" by simp
  have reach: "alcancavel s" unfolding s using assms(1) by (rule enfileirar_alcancavel)
  have mi: "cs ! i \<in> set (nao_atendidos s)"
    and ti: "tipo (obj s (cs ! i)) = tipo_in (fst (entradas ! i))"
    unfolding cs s using enfileirar_novos [OF assms(1) i] by simp_all
  have mj: "cs ! j \<in> set (nao_atendidos s)"
    and tj: "tipo (obj s (cs ! j)) = tipo_in (fst (entradas ! j))"
    unfolding cs s using enfileirar_novos [OF assms(1) assms(4)] by simp_all
  have lt: "cs ! i < cs ! j"
    unfolding cs using assms(3) by (simp add: enfileirar_refs i assms(4))
  have tt: "tipo (obj s (cs ! i)) = tipo (obj s (cs ! j))"
    using ti tj assms(5) by simp
  have p: "posicao (obj s (cs ! i)) < posicao (obj s (cs ! j))"
    using reach mi mj tt lt by (rule posicao_por_chegada)
  let ?s1 = "ordenar_recalcular_posicoes s"
  have mem1: "set (nao_atendidos ?s1) = set (nao_atendidos s)"
    by (simp add: nao_atendidos_recalc set_ordenados)
  have "posicao (obj ?s1 (cs ! i)) < posicao (obj ?s1 (cs ! j))"
    using alcancavel_recalc [OF reach]
  proof (rule posicao_por_chegada)
    show "cs ! i \<in> set (nao_atendidos ?s1)" using mi by (simp add: mem1)
    show "cs ! j \<in> set (nao_atendidos ?s1)" using mj by (simp add: mem1)
    show "tipo (obj ?s1 (cs ! i)) = tipo (obj ?s1 (cs ! j))" using tt by (simp add: recalc_campos)
    show "cs ! i < cs ! j" by (rule lt)
  qed
  with mi mj ti tj p show ?thesis by simp
qed

text \<open>
  Ana (N), Bob (P) and Carla (N) arrive in this order in the empty store. Ana and
  Carla are of the same type: Ana, enqueued first, has position 2 and Carla
  position 3 (Bob has position 1).
\<close>

theorem C3_ordem_de_chegada_witness:
  "alcancavel estado_inicial
   \<and> fst (enfileirar_todos [(ana, 100), (bob, 200), (carla, 300)] estado_inicial) = [0, 1, 2]
   \<and> (0::nat) < 2 \<and> (2::nat) < length [(ana, 100::int), (bob, 200), (carla, 300)]
   \<and> tipo_in ana = tipo_in carla
   \<and> posicao (obj (snd (enfileirar_todos [(ana, 100), (bob, 200), (carla, 300)]
                          estado_inicial)) 0) = 2
   \<and> posicao (obj (snd (enfileirar_todos [(ana, 100), (bob, 200), (carla, 300)]
                          estado_inicial)) 2) = 3
   \<and> posicao (obj (snd (enfileirar_todos [(ana, 100), (bob, 200), (carla, 300)]
                          estado_inicial)) 0)
       < posicao (obj (snd (enfileirar_todos [(ana, 100), (bob, 200), (carla, 300)]
                              estado_inicial)) 2)"
proof -
  let ?e = "[(ana, 100::int), (bob, 200), (carla, 300)]"
  have v: "enfileirar_todos ?e estado_inicial
             = ([0, 1, 2],
                \<lparr>objetos = [Suc 0 \<mapsto> \<lparr>posicao = 1, nome = ''Bob'', chegada = 200, tipo = P, atendido = False\<rparr>,
                            0 \<mapsto> \<lparr>posicao = 2, nome = ''Ana'', chegada = 100, tipo = N, atendido = False\<rparr>,
                            Suc (Suc 0) \<mapsto> \<lparr>posicao = 3, nome = ''Carla'', chegada = 300, tipo = N, atendido = False\<rparr>],
                  prox = 3, fila = [Suc 0, 0, Suc (Suc 0)]\<rparr>)"
    by (simp add: avaliar)
  have t: "tipo_in (fst (?e ! 0)) = tipo_in (fst (?e ! 2))"
    by (simp add: ana_def carla_def)
  show ?thesis
    using C3_ordem_de_chegada [OF alcancavel.inicial v _ _ t] alcancavel.inicial v
    by (simp add: obj_def deref_def ana_def carla_def)
qed

end
